theory Spec2Isabelle
  imports Main
begin

section \<open>Regular expressions\<close>

text \<open>
  The engine (gobdd.go) compiles every step pattern with \<open>regexp.Compile\<close> and asks the
  compiled expression three questions: \<open>MatchString\<close>, \<open>FindAll\<close> (with \<open>n = -1\<close>) and
  \<open>FindSubmatch\<close>. The package \<open>regexp\<close> is Go's standard library, not code of the
  repository; this section models the part of it that the suite's built-in parameter
  types, the outline fragments and ordinary step patterns use: literals, \<open>.\<close>, \<open>^\<close>,
  \<open>$\<close>, bracket classes, the Perl classes \<open>\d \w \s\<close>, capturing groups, alternation
  and the greedy operators \<open>* + ?\<close>. Texts are read byte-wise (ASCII). Where a pattern
  uses syntax outside this part, \<open>Compile\<close> answers \<open>Unsupported\<close>.
\<close>

abbreviation bs :: char where "bs \<equiv> CHR 0x5C"

datatype regex =
    RLit char
  | RAny
  | RClass bool "(char \<times> char) list"
  | RBol
  | REol
  | REmpty
  | RSeq regex regex
  | RAlt regex regex
  | RStar regex
  | RPlus regex
  | RQuest regex
  | RGroup nat regex

type_synonym caps = "nat \<Rightarrow> (nat \<times> nat) option"
type_synonym mstate = "nat \<times> caps"

definition in_ranges :: "(char \<times> char) list \<Rightarrow> char \<Rightarrow> bool" where
  "in_ranges rs c =
     list_ex (\<lambda>r. (of_char (fst r) :: nat) \<le> of_char c \<and> (of_char c :: nat) \<le> of_char (snd r)) rs"

text \<open>
  One more round of a starred expression is preferred to stopping (greedy); a round that
  consumes nothing is not repeated, so \<open>length b\<close> rounds of fuel are never used up.
\<close>

primrec star_iter :: "(mstate \<Rightarrow> mstate list) \<Rightarrow> nat \<Rightarrow> mstate \<Rightarrow> mstate list" where
  "star_iter f 0 st = [st]"
| "star_iter f (Suc n) st =
     concat (map (\<lambda>st'. if fst st < fst st' then star_iter f n st' else []) (f st)) @ [st]"

text \<open>
  \<open>ends re b (i, cs)\<close>: every way \<open>re\<close> matches \<open>b\<close> from position \<open>i\<close>, as the end
  position and the captures, in the order a backtracking matcher tries them
  (leftmost-first, which is what \<open>regexp.Compile\<close> gives).
\<close>

primrec ends :: "regex \<Rightarrow> string \<Rightarrow> mstate \<Rightarrow> mstate list" where
  "ends (RLit c) b st = (if fst st < length b \<and> b ! fst st = c then [(Suc (fst st), snd st)] else [])"
| "ends RAny b st =
     (if fst st < length b \<and> b ! fst st \<noteq> CHR 0x0A then [(Suc (fst st), snd st)] else [])"
| "ends (RClass neg rs) b st =
     (if fst st < length b \<and> (in_ranges rs (b ! fst st) \<noteq> neg) then [(Suc (fst st), snd st)] else [])"
| "ends RBol b st = (if fst st = 0 then [st] else [])"
| "ends REol b st = (if fst st = length b then [st] else [])"
| "ends REmpty b st = [st]"
| "ends (RSeq r1 r2) b st = concat (map (ends r2 b) (ends r1 b st))"
| "ends (RAlt r1 r2) b st = ends r1 b st @ ends r2 b st"
| "ends (RStar r) b st = star_iter (ends r b) (length b) st"
| "ends (RPlus r) b st = concat (map (star_iter (ends r b) (length b)) (ends r b st))"
| "ends (RQuest r) b st = ends r b st @ [st]"
| "ends (RGroup g r) b st =
     map (\<lambda>st'. (fst st', (snd st')(g \<mapsto> (fst st, fst st')))) (ends r b st)"

text \<open>The leftmost match at or after \<open>pos\<close>: start, end and captures.\<close>

definition doExecute :: "regex \<Rightarrow> string \<Rightarrow> nat \<Rightarrow> (nat \<times> nat \<times> caps) option" where
  "doExecute re b pos =
     (case List.find (\<lambda>p. ends re b (p, Map.empty) \<noteq> []) [pos..<Suc (length b)] of
        None \<Rightarrow> None
      | Some p \<Rightarrow>
          (case ends re b (p, Map.empty) of
             [] \<Rightarrow> None
           | st # _ \<Rightarrow> Some (p, fst st, snd st)))"

lemma star_iter_ge:
  assumes "\<And>s s'. s' \<in> set (f s) \<Longrightarrow> fst s \<le> fst s'"
  shows "s' \<in> set (star_iter f n s) \<Longrightarrow> fst s \<le> fst s'"
proof (induction n arbitrary: s s')
  case 0
  then show ?case by simp
next
  case (Suc n)
  from Suc.prems consider "s' = s"
    | m where "m \<in> set (f s)" "fst s < fst m" "s' \<in> set (star_iter f n m)"
    by (auto split: if_splits)
  then show ?case
  proof cases
    case 1
    then show ?thesis by simp
  next
    case 2
    from Suc.IH [OF 2(3)] 2(2) show ?thesis by simp
  qed
qed

lemma ends_ge: "s' \<in> set (ends re b s) \<Longrightarrow> fst s \<le> fst s'"
proof (induction re arbitrary: s s')
  case (RSeq r1 r2)
  from RSeq.prems obtain m where "m \<in> set (ends r1 b s)" "s' \<in> set (ends r2 b m)"
    by auto
  with RSeq.IH show ?case by (meson order_trans)
next
  case (RStar r)
  then show ?case using star_iter_ge [of "ends r b"] by simp
next
  case (RPlus r)
  from RPlus.prems obtain m where m: "m \<in> set (ends r b s)"
      "s' \<in> set (star_iter (ends r b) (length b) m)"
    by auto
  have "fst m \<le> fst s'"
    using star_iter_ge [of "ends r b", OF _ m(2)] RPlus.IH by blast
  with RPlus.IH [OF m(1)] show ?case by simp
qed (auto split: if_splits)

lemma find_Some_set: "List.find P xs = Some x \<Longrightarrow> x \<in> set xs \<and> P x"
  by (induction xs) (auto split: if_splits)

lemma doExecute_bounds:
  assumes "doExecute re b pos = Some m"
  shows "pos \<le> fst m \<and> fst m \<le> fst (snd m)"
proof -
  from assms obtain st rest where
      f: "List.find (\<lambda>p. ends re b (p, Map.empty) \<noteq> []) [pos..<Suc (length b)] = Some (fst m)"
      and e: "ends re b (fst m, Map.empty) = st # rest" and m1: "fst (snd m) = fst st"
    by (auto simp: doExecute_def split: option.splits list.splits)
  from find_Some_set [OF f] have "pos \<le> fst m" by auto
  moreover from e have "st \<in> set (ends re b (fst m, Map.empty))" by simp
  then have "fst m \<le> fst st" using ends_ge by fastforce
  ultimately show ?thesis using m1 by simp
qed

text \<open>
  \<open>Regexp.allMatches\<close> of the library, which \<open>FindAll\<close> runs: successive non-overlapping
  matches, an empty match right after the previous match being dropped. \<open>prev\<close> is
  \<open>prevMatchEnd\<close> (\<open>-1\<close> at first), \<open>i\<close> counts the matches delivered, \<open>n\<close> bounds them.
\<close>

function allMatches :: "regex \<Rightarrow> string \<Rightarrow> nat \<Rightarrow> nat \<Rightarrow> nat \<Rightarrow> int \<Rightarrow> (nat \<times> nat) list" where
  "allMatches re b n pos i prev =
     (if i < n \<and> pos \<le> length b then
        (case doExecute re b pos of
           None \<Rightarrow> []
         | Some m \<Rightarrow>
             (let m0 = fst m; m1 = fst (snd m);
                  accept = \<not> (m1 = pos \<and> int m0 = prev);
                  pos' = (if m1 = pos then (if pos < length b then pos + 1 else length b + 1) else m1)
              in if accept then (m0, m1) # allMatches re b n pos' (i + 1) (int m1)
                 else allMatches re b n pos' i (int m1)))
      else [])"
  by pat_completeness auto
termination
proof (relation "measure (\<lambda>(re, b, n, pos, i, prev). Suc (length b) - pos)", goal_cases)
  case 1
  then show ?case by simp
next
  case (2 re b n pos i prev m m0 m1 accept pos')
  from doExecute_bounds [OF 2(2)] 2 show ?case by (auto split: if_splits)
next
  case (3 re b n pos i prev m m0 m1 accept pos')
  from doExecute_bounds [OF 3(2)] 3 show ?case by (auto split: if_splits)
qed

declare allMatches.simps [simp del]

definition MatchString :: "regex \<Rightarrow> string \<Rightarrow> bool" where
  "MatchString re s = (doExecute re s 0 \<noteq> None)"

definition FindAll :: "regex \<Rightarrow> string \<Rightarrow> (nat \<times> nat) list" where
  "FindAll re b = allMatches re b (length b + 1) 0 0 (- 1)"

definition slice :: "string \<Rightarrow> nat \<Rightarrow> nat \<Rightarrow> string" where
  "slice b lo hi = take (hi - lo) (drop lo b)"

fun numCap :: "regex \<Rightarrow> nat" where
  "numCap (RSeq r1 r2) = numCap r1 + numCap r2"
| "numCap (RAlt r1 r2) = numCap r1 + numCap r2"
| "numCap (RStar r) = numCap r"
| "numCap (RPlus r) = numCap r"
| "numCap (RQuest r) = numCap r"
| "numCap (RGroup g r) = Suc (numCap r)"
| "numCap r = 0"

text \<open>
  \<open>FindSubmatch\<close>: the leftmost match and its groups 1..numCap; a group that took no part
  in the match is \<open>nil\<close>, which every use in the engine reads as the empty string.
\<close>

definition FindSubmatch :: "regex \<Rightarrow> string \<Rightarrow> string list option" where
  "FindSubmatch re b =
     (case doExecute re b 0 of
        None \<Rightarrow> None
      | Some m \<Rightarrow>
          Some (slice b (fst m) (fst (snd m)) #
                map (\<lambda>g. case snd (snd m) g of None \<Rightarrow> [] | Some sp \<Rightarrow> slice b (fst sp) (snd sp))
                    [1..<Suc (numCap re)]))"

subsection \<open>Compiling a pattern\<close>

text \<open>
  The errors \<open>regexp.Compile\<close> reports on the syntax modelled, and \<open>Unsupported\<close> for
  syntax that is left out (flags and non-capturing groups \<open>(?\<close>, counted repetition
  \<open>{n,m}\<close>, non-greedy operators, named and Unicode classes, negated Perl classes inside
  brackets, octal and hexadecimal escapes, \<open>\A \b \B \C \E \Q \z\<close>).
\<close>

datatype cerror =
    MissingParen
  | UnexpectedParen
  | MissingBracket
  | InvalidCharRange
  | InvalidEscape
  | TrailingBackslash
  | MissingRepeatArgument
  | InvalidRepeatOp
  | Unsupported

definition isdigit :: "char \<Rightarrow> bool" where
  "isdigit c = (48 \<le> (of_char c :: nat) \<and> (of_char c :: nat) \<le> 57)"

definition isalnum :: "char \<Rightarrow> bool" where
  "isalnum c =
     (isdigit c \<or> (65 \<le> (of_char c :: nat) \<and> (of_char c :: nat) \<le> 90)
      \<or> (97 \<le> (of_char c :: nat) \<and> (of_char c :: nat) \<le> 122))"

text \<open>The character after a backslash (\<open>parser.parseEscape\<close>).\<close>

definition parseEscape :: "char \<Rightarrow> cerror + char" where
  "parseEscape c =
     (if c = CHR ''a'' then Inr (CHR 0x07)
      else if c = CHR ''f'' then Inr (CHR 0x0C)
      else if c = CHR ''n'' then Inr (CHR 0x0A)
      else if c = CHR ''r'' then Inr (CHR 0x0D)
      else if c = CHR ''t'' then Inr (CHR 0x09)
      else if c = CHR ''v'' then Inr (CHR 0x0B)
      else if isdigit c \<or> c = CHR ''x'' then Inl Unsupported
      else if isalnum c \<or> 128 \<le> (of_char c :: nat) then Inl InvalidEscape
      else Inr c)"

definition perlClass :: "char \<Rightarrow> (char \<times> char) list option" where
  "perlClass c =
     (if c = CHR ''d'' then Some [(CHR ''0'', CHR ''9'')]
      else if c = CHR ''w'' then
        Some [(CHR ''0'', CHR ''9''), (CHR ''A'', CHR ''Z''), (CHR ''_'', CHR ''_''), (CHR ''a'', CHR ''z'')]
      else if c = CHR ''s'' then
        Some [(CHR 0x09, CHR 0x0A), (CHR 0x0C, CHR 0x0D), (CHR '' '', CHR '' '')]
      else None)"

definition parseClassChar :: "string \<Rightarrow> cerror + (char \<times> string)" where
  "parseClassChar s =
     (case s of
        [] \<Rightarrow> Inl MissingBracket
      | c # t \<Rightarrow>
          if c = bs then
            (case t of
               [] \<Rightarrow> Inl TrailingBackslash
             | d # t' \<Rightarrow> (case parseEscape d of Inl e \<Rightarrow> Inl e | Inr ch \<Rightarrow> Inr (ch, t')))
          else Inr (c, t))"

lemma parseClassChar_shorter: "parseClassChar s = Inr p \<Longrightarrow> length (snd p) < length s"
  by (auto simp: parseClassChar_def split: list.splits if_splits sum.splits)

text \<open>
  The items of a bracket class after \<open>[\<close> or \<open>[^\<close> (the loop of \<open>parser.parseClass\<close>):
  \<open>]\<close> closes the class unless it is the first item; an item is a Perl class, a
  character or a range \<open>lo-hi\<close>; \<open>-\<close> before \<open>]\<close> is a character.
\<close>

function parseClassItems ::
  "(char \<times> char) list \<Rightarrow> bool \<Rightarrow> string \<Rightarrow> cerror + ((char \<times> char) list \<times> string)" where
  "parseClassItems items first t =
     (case t of
        [] \<Rightarrow> Inl MissingBracket
      | c # t1 \<Rightarrow>
          if c = CHR '']'' \<and> \<not> first then Inr (rev items, t1)
          else if c = CHR ''['' \<and> take 1 t1 = '':'' then Inl Unsupported
          else if c = bs \<and> take 1 t1 \<in> {''p'', ''P'', ''D'', ''W'', ''S''} then Inl Unsupported
          else if c = bs \<and> t1 \<noteq> [] \<and> perlClass (hd t1) \<noteq> None then
            parseClassItems (rev (the (perlClass (hd t1))) @ items) False (tl t1)
          else
            (case parseClassChar t of
               Inl e \<Rightarrow> Inl e
             | Inr lo \<Rightarrow>
                 if take 1 (snd lo) = ''-'' \<and> take 1 (drop 1 (snd lo)) \<notin> {[], '']''} then
                   (case parseClassChar (drop 1 (snd lo)) of
                      Inl e \<Rightarrow> Inl e
                    | Inr hi \<Rightarrow>
                        if (of_char (fst hi) :: nat) < of_char (fst lo) then Inl InvalidCharRange
                        else parseClassItems ((fst lo, fst hi) # items) False (snd hi))
                 else parseClassItems ((fst lo, fst lo) # items) False (snd lo)))"
  by pat_completeness auto
termination
  apply (relation "measure (\<lambda>(items, first, t). length t)")
     apply simp
  subgoal for items first t c t1 by (cases t1) auto
  subgoal by (auto dest!: parseClassChar_shorter)
  subgoal by (auto dest!: parseClassChar_shorter)
  done

declare parseClassItems.simps [simp del]

lemma parseClassItems_shorter:
  "parseClassItems items first t = Inr p \<Longrightarrow> length (snd p) < length t"
proof (induction items first t rule: parseClassItems.induct)
  case (1 items first t)
  show ?case
  proof (cases t)
    case Nil
    with "1.prems" show ?thesis by (simp add: parseClassItems.simps)
  next
    case (Cons c t1)
    note IH = "1.IH" [OF Cons]
    note eq = "1.prems" [unfolded parseClassItems.simps [of items first t], unfolded Cons list.case]
    show ?thesis
    proof (cases "c = CHR '']'' \<and> \<not> first")
      case True
      with eq Cons show ?thesis by auto
    next
      case nclose: False
      show ?thesis
      proof (cases "c = bs \<and> t1 \<noteq> [] \<and> perlClass (hd t1) \<noteq> None")
        case True
        with eq nclose have "parseClassItems (rev (the (perlClass (hd t1))) @ items) False (tl t1) = Inr p"
          by (auto split: if_splits)
        with IH(1) nclose True eq have "length (snd p) < length (tl t1)"
          by (auto split: if_splits)
        with Cons show ?thesis by (cases t1) auto
      next
        case nperl: False
        from eq nclose nperl obtain lo where lo: "parseClassChar (c # t1) = Inr lo"
          by (auto split: if_splits sum.splits)
        note sh = parseClassChar_shorter [OF lo]
        show ?thesis
        proof (cases "take 1 (snd lo) = ''-'' \<and> take 1 (drop 1 (snd lo)) \<notin> {[], '']''}")
          case True
          with eq nclose nperl lo obtain hi where hi: "parseClassChar (drop 1 (snd lo)) = Inr hi"
             and ge: "\<not> (of_char (fst hi) :: nat) < of_char (fst lo)"
             and r: "parseClassItems ((fst lo, fst hi) # items) False (snd hi) = Inr p"
            by (auto split: if_splits sum.splits)
          from IH(2) [of lo hi] eq nclose nperl lo True hi ge r Cons
          have "length (snd p) < length (snd hi)" by (auto split: if_splits)
          with parseClassChar_shorter [OF hi] sh Cons show ?thesis by simp
        next
          case False
          with eq nclose nperl lo have r: "parseClassItems ((fst lo, fst lo) # items) False (snd lo) = Inr p"
            by (auto split: if_splits sum.splits)
          from IH(3) [of lo] eq nclose nperl lo False r Cons
          have "length (snd p) < length (snd lo)" by (auto split: if_splits)
          with sh Cons show ?thesis by simp
        qed
      qed
    qed
  qed
qed

text \<open>A bracket class after its \<open>[\<close> (\<open>parser.parseClass\<close>).\<close>

definition parseClass :: "string \<Rightarrow> cerror + (regex \<times> string)" where
  "parseClass t =
     (let neg = (take 1 t = ''^'');
          t0 = (if neg then drop 1 t else t)
      in case parseClassItems [] True t0 of
           Inl e \<Rightarrow> Inl e
         | Inr p \<Rightarrow> Inr (RClass neg (fst p), snd p))"

lemma parseClass_shorter: "parseClass t = Inr p \<Longrightarrow> length (snd p) < Suc (length t)"
  by (auto simp: parseClass_def Let_def split: sum.splits if_splits
      dest!: parseClassItems_shorter)

text \<open>
  \<open>{\<close> opens a counted repetition only when \<open>{n}\<close>, \<open>{n,}\<close> or \<open>{n,m}\<close> follows;
  otherwise it is a literal character, which is how a token such as \<open>{int}\<close> compiles.
\<close>

definition isRepeatSpec :: "string \<Rightarrow> bool" where
  "isRepeatSpec t =
     (takeWhile isdigit t \<noteq> [] \<and>
      (case dropWhile isdigit t of
         [] \<Rightarrow> False
       | c # r \<Rightarrow>
           c = CHR ''}'' \<or> (c = CHR '','' \<and> take 1 (dropWhile isdigit r) = ''}'')))"

text \<open>
  The parser keeps, as the library's does, a stack of the groups that are open. A frame
  holds the alternatives of its group that are complete, the items of the alternative
  being read (latest first) and the group's capture index.
\<close>

record frame =
  alts :: "regex list"
  cur :: "regex list"
  gidx :: nat

fun mkSeq :: "regex list \<Rightarrow> regex" where
  "mkSeq [] = REmpty"
| "mkSeq [r] = r"
| "mkSeq (r # rs) = RSeq r (mkSeq rs)"

fun mkAlt :: "regex list \<Rightarrow> regex" where
  "mkAlt [] = REmpty"
| "mkAlt [r] = r"
| "mkAlt (r # rs) = RAlt r (mkAlt rs)"

definition closeFrame :: "frame \<Rightarrow> regex" where
  "closeFrame f = mkAlt (rev (mkSeq (rev (cur f)) # alts f))"

definition push :: "regex \<Rightarrow> frame \<Rightarrow> frame" where
  "push r f = f\<lparr>cur := r # cur f\<rparr>"

definition repeatOp :: "char \<Rightarrow> regex \<Rightarrow> regex" where
  "repeatOp c r = (if c = CHR ''*'' then RStar r else if c = CHR ''+'' then RPlus r else RQuest r)"

definition negPerlClass :: "char \<Rightarrow> (char \<times> char) list option" where
  "negPerlClass c =
     (if c = CHR ''D'' then perlClass (CHR ''d'')
      else if c = CHR ''W'' then perlClass (CHR ''w'')
      else if c = CHR ''S'' then perlClass (CHR ''s'')
      else None)"

text \<open>
  \<open>parse s fr rest lastRep n\<close>: \<open>fr\<close> is the innermost open group, \<open>rest\<close> the groups
  around it, \<open>lastRep\<close> says that the character just read was a repetition operator
  (a second one is refused), \<open>n\<close> counts the groups opened.
\<close>

function parse :: "string \<Rightarrow> frame \<Rightarrow> frame list \<Rightarrow> bool \<Rightarrow> nat \<Rightarrow> cerror + regex" where
  "parse s fr rest lastRep n =
     (case s of
        [] \<Rightarrow> (if rest = [] then Inr (closeFrame fr) else Inl MissingParen)
      | c # t \<Rightarrow>
          if c = CHR ''('' then
            (if take 1 t = ''?'' then Inl Unsupported
             else parse t \<lparr>alts = [], cur = [], gidx = Suc n\<rparr> (fr # rest) False (Suc n))
          else if c = CHR '')'' then
            (case rest of
               [] \<Rightarrow> Inl UnexpectedParen
             | g # rest' \<Rightarrow> parse t (push (RGroup (gidx fr) (closeFrame fr)) g) rest' False n)
          else if c = CHR ''|'' then
            parse t (fr\<lparr>alts := mkSeq (rev (cur fr)) # alts fr, cur := []\<rparr>) rest False n
          else if c = CHR ''*'' \<or> c = CHR ''+'' \<or> c = CHR ''?'' then
            (if take 1 t = ''?'' then Inl Unsupported
             else if lastRep then Inl InvalidRepeatOp
             else (case cur fr of
                     [] \<Rightarrow> Inl MissingRepeatArgument
                   | r # rs \<Rightarrow> parse t (fr\<lparr>cur := repeatOp c r # rs\<rparr>) rest True n))
          else if c = CHR ''{'' then
            (if isRepeatSpec t then Inl Unsupported else parse t (push (RLit c) fr) rest False n)
          else if c = CHR ''['' then
            (case parseClass t of
               Inl e \<Rightarrow> Inl e
             | Inr p \<Rightarrow> parse (snd p) (push (fst p) fr) rest False n)
          else if c = bs then
            (case t of
               [] \<Rightarrow> Inl TrailingBackslash
             | d # t' \<Rightarrow>
                 if perlClass d \<noteq> None then
                   parse t' (push (RClass False (the (perlClass d))) fr) rest False n
                 else if negPerlClass d \<noteq> None then
                   parse t' (push (RClass True (the (negPerlClass d))) fr) rest False n
                 else if d \<in> set ''AbBCEQzpP'' then Inl Unsupported
                 else (case parseEscape d of
                         Inl e \<Rightarrow> Inl e
                       | Inr ch \<Rightarrow> parse t' (push (RLit ch) fr) rest False n))
          else if c = CHR ''^'' then parse t (push RBol fr) rest False n
          else if c = CHR ''$'' then parse t (push REol fr) rest False n
          else if c = CHR ''.'' then parse t (push RAny fr) rest False n
          else parse t (push (RLit c) fr) rest False n)"
  by pat_completeness auto
termination
  apply (relation "measure (\<lambda>(s, fr, rest, lastRep, n). length s)")
  apply (auto dest!: parseClass_shorter)
  done

declare parse.simps [simp del]

text \<open>
  A compiled expression: the pattern text it was compiled from (what \<open>Regexp.String\<close>
  returns) and the program.
\<close>

record Regexp =
  source :: string
  prog :: regex

definition Compile :: "string \<Rightarrow> cerror + Regexp" where
  "Compile s =
     (case parse s \<lparr>alts = [], cur = [], gidx = 0\<rparr> [] False 0 of
        Inl e \<Rightarrow> Inl e
      | Inr r \<Rightarrow> Inr \<lparr>source = s, prog = r\<rparr>)"

section \<open>The suite: parameter types and step definitions\<close>

text \<open>
  A step function is an \<open>interface{}\<close> value that the engine inspects by reflection: only
  whether it is a function and the kinds of its parameters matter. \<open>Func i ks\<close> is the
  function value \<open>i\<close> whose parameters have the kinds \<open>ks\<close>.
\<close>

datatype kind = KStepTest | KContext | KString | KInt | KFloat32 | KFloat64 | KBytes | KOther

datatype handler = NotAFunc | Func nat "kind list"

record stepDef =
  expr :: Regexp
  f :: handler

record SuiteOptions =
  featuresPaths :: string
  ignoreTags :: "string list"
  tags :: "string list"
  beforeScenario :: "nat list"
  afterScenario :: "nat list"
  beforeStep :: "nat list"
  afterStep :: "nat list"
  runInParallel :: bool

text \<open>
  The hooks of the options are function values too; a hook is named by a number, and what
  it does to the context is given by the environment of a run (section Execution).
  \<open>parameterTypes\<close> is a Go map from a token to its fragments; the list gives its keys in
  one order of iteration (Go fixes none). \<open>tFailed\<close> is the failure mark of the suite's
  \<open>TestingT\<close>, which \<open>Errorf\<close> sets.

  The last field is not a field of the Go structure. \<open>outsideModel\<close> is set when the
  suite was given a pattern for which \<open>Compile\<close> answers \<open>Unsupported\<close>: the library may
  well compile such a pattern, so from then on the fields above are not known to be those
  of the code, and nothing is claimed about a suite that carries the mark.
\<close>

record Suite =
  steps :: "stepDef list"
  options :: SuiteOptions
  hasStepErrors :: bool
  parameterTypes :: "(string \<times> string list) list"
  tFailed :: bool
  outsideModel :: bool

definition NewSuiteOptions :: SuiteOptions where
  "NewSuiteOptions =
     \<lparr>featuresPaths = ''features/*.feature'', ignoreTags = [], tags = [],
      beforeScenario = [], afterScenario = [], beforeStep = [], afterStep = [],
      runInParallel = False\<rparr>"

text \<open>\<open>s.parameterTypes[from] = append(s.parameterTypes[from], to)\<close>\<close>

definition appendParameterType ::
  "string \<Rightarrow> string \<Rightarrow> (string \<times> string list) list \<Rightarrow> (string \<times> string list) list" where
  "appendParameterType from to pts =
     (if from \<in> set (map fst pts)
      then map (\<lambda>kv. if fst kv = from then (fst kv, snd kv @ [to]) else kv) pts
      else pts @ [(from, [to])])"

text \<open>
  \<open>AddParameterTypes\<close>: a fragment that does not compile is fatal (\<open>s.t.Fatalf\<close> ends the
  goroutine of the test), which is the error value here. A fragment in syntax that is
  left out is not taken for one that does not compile: the suite is marked
  \<open>outsideModel\<close> and left as it is.
\<close>

datatype fatal = Fatal string

fun AddParameterTypes :: "string \<Rightarrow> string list \<Rightarrow> Suite \<Rightarrow> fatal + Suite" where
  "AddParameterTypes from [] s = Inr s"
| "AddParameterTypes from (to # tos) s =
     (case Compile to of
        Inl e \<Rightarrow>
          if e = Unsupported then Inr (s\<lparr>outsideModel := True\<rparr>)
          else Inl (Fatal ''the regular expresion for key doesn't compile'')
      | Inr c \<Rightarrow>
          AddParameterTypes from tos
            (s\<lparr>parameterTypes := appendParameterType from to (parameterTypes s)\<rparr>))"

definition bindF :: "fatal + 'a \<Rightarrow> ('a \<Rightarrow> fatal + 'b) \<Rightarrow> fatal + 'b" where
  "bindF m k = (case m of Inl e \<Rightarrow> Inl e | Inr x \<Rightarrow> k x)"

text \<open>The four built-in parameter types of \<open>NewSuite\<close>.\<close>

definition frag_int :: string where "frag_int = ''('' @ bs # ''d)''"
definition frag_float :: string where
  "frag_float = ''([-+]?'' @ bs # ''d*'' @ bs # ''.?'' @ bs # ''d*)''"
definition frag_word :: string where
  "frag_word = ''(['' @ bs # ''d'' @ bs # ''w]+)''"
definition frag_text_dq :: string where
  "frag_text_dq =
     CHR 0x22 # ''(['' @ bs # ''d'' @ bs # ''w'' @ bs # ''-'' @ bs # ''s]+)'' @ [CHR 0x22]"
definition frag_text_sq :: string where
  "frag_text_sq =
     CHR 0x27 # ''(['' @ bs # ''d'' @ bs # ''w'' @ bs # ''-'' @ bs # ''s]+)'' @ [CHR 0x27]"

definition NewSuite :: "SuiteOptions \<Rightarrow> fatal + Suite" where
  "NewSuite opts =
     bindF (AddParameterTypes ''{int}'' [frag_int]
              \<lparr>steps = [], options = opts, hasStepErrors = False, parameterTypes = [],
               tFailed = False, outsideModel = False\<rparr>)
       (\<lambda>s1. bindF (AddParameterTypes ''{float}'' [frag_float] s1)
       (\<lambda>s2. bindF (AddParameterTypes ''{word}'' [frag_word] s2)
       (\<lambda>s3. AddParameterTypes ''{text}'' [frag_text_dq, frag_text_sq] s3)))"

subsection \<open>Strings\<close>

text \<open>\<open>strings.Contains\<close> and \<open>strings.Replace\<close> with \<open>n = -1\<close> (every non-overlapping
  instance, left to right; an empty \<open>old\<close> matches before every byte and at the end).\<close>

fun Contains :: "string \<Rightarrow> string \<Rightarrow> bool" where
  "Contains [] sub = (sub = [])"
| "Contains (c # s) sub = (take (length sub) (c # s) = sub \<or> Contains s sub)"

function Replace :: "string \<Rightarrow> string \<Rightarrow> string \<Rightarrow> string" where
  "Replace s old new =
     (case s of
        [] \<Rightarrow> (if old = [] then new else [])
      | c # t \<Rightarrow>
          if old = [] then new @ c # Replace t old new
          else if take (length old) s = old then new @ Replace (drop (length old) s) old new
          else c # Replace t old new)"
  by pat_completeness auto
termination
  by (relation "measure (\<lambda>(s, old, new). length s)") auto

declare Replace.simps [simp del]

subsection \<open>Registering steps\<close>

text \<open>
  Modelled from the spec: \<open>validateStepFunc\<close> is called by \<open>AddStep\<close> but is not among the
  sources. The spec (section 3, Step Definition): the first two parameters must accept a
  test-reporting handle and an execution context; the remaining parameters may be of any
  primitive kind the coercion layer supports.
\<close>

definition validateStepFunc :: "handler \<Rightarrow> string option" where
  "validateStepFunc h =
     (case h of
        NotAFunc \<Rightarrow> Some ''the parameter should be a function''
      | Func i ks \<Rightarrow>
          if take 2 ks = [KStepTest, KContext]
             \<and> list_all (\<lambda>k. k \<in> {KString, KInt, KFloat32, KFloat64, KBytes}) (drop 2 ks)
          then None
          else Some ''the step function has a wrong signature'')"

text \<open>The two nested loops of \<open>applyParameterTypes\<close>.\<close>

definition applyParameterTypes :: "Suite \<Rightarrow> string \<Rightarrow> string list" where
  "applyParameterTypes s ex =
     ex # concat (map (\<lambda>kv. concat (map (\<lambda>t. if Contains ex (fst kv)
                                              then [Replace ex (fst kv) t] else [])
                                      (snd kv)))
                 (parameterTypes s))"

text \<open>The loop of \<open>AddStep\<close> over the candidate patterns: it returns at the first that
  does not compile. At a candidate in syntax that is left out, what the code does is not
  known (the library may compile it, and the loop would go on): the suite is marked
  \<open>outsideModel\<close>, and no error is reported for it.\<close>

fun addExprs :: "string list \<Rightarrow> handler \<Rightarrow> Suite \<Rightarrow> Suite" where
  "addExprs [] step s = s"
| "addExprs (ex # exs) step s =
     (case Compile ex of
        Inl e \<Rightarrow>
          if e = Unsupported then s\<lparr>outsideModel := True\<rparr>
          else s\<lparr>hasStepErrors := True, tFailed := True\<rparr>
      | Inr compiled \<Rightarrow> addExprs exs step (s\<lparr>steps := steps s @ [\<lparr>expr = compiled, f = step\<rparr>]\<rparr>))"

definition AddStep :: "string \<Rightarrow> handler \<Rightarrow> Suite \<Rightarrow> Suite" where
  "AddStep ex step s =
     (case validateStepFunc step of
        Some err \<Rightarrow> s\<lparr>hasStepErrors := True, tFailed := True\<rparr>
      | None \<Rightarrow> addExprs (applyParameterTypes s ex) step s)"

definition AddRegexStep :: "Regexp \<Rightarrow> handler \<Rightarrow> Suite \<Rightarrow> Suite" where
  "AddRegexStep re step s =
     (case validateStepFunc step of
        Some err \<Rightarrow> s\<lparr>hasStepErrors := True, tFailed := True\<rparr>
      | None \<Rightarrow> s\<lparr>steps := steps s @ [\<lparr>expr = re, f = step\<rparr>]\<rparr>)"

subsection \<open>Resolving a step text\<close>

text \<open>
  The loop of \<open>findStepDef\<close>: \<open>found\<close> is the best count so far and \<open>sd\<close> the definition
  that reached it; \<open>None\<close> is the zero value \<open>stepDef{}\<close> that \<open>sd\<close> starts as, which no
  registered definition equals (its \<open>expr\<close> is not nil).
\<close>

fun findLoop :: "stepDef list \<Rightarrow> string \<Rightarrow> nat \<Rightarrow> stepDef option \<Rightarrow> stepDef option" where
  "findLoop [] text found sd = sd"
| "findLoop (step # rest) text found sd =
     (if \<not> MatchString (prog (expr step)) text then findLoop rest text found sd
      else if length (FindAll (prog (expr step)) text) > found
           then findLoop rest text (length (FindAll (prog (expr step)) text)) (Some step)
           else findLoop rest text found sd)"

datatype lookup_error = CannotFindStepDefinition

definition findStepDef :: "Suite \<Rightarrow> string \<Rightarrow> lookup_error + stepDef" where
  "findStepDef s text =
     (case findLoop (steps s) text 0 None of
        None \<Rightarrow> Inl CannotFindStepDefinition
      | Some sd \<Rightarrow> Inr sd)"

text \<open>
  The number of non-overlapping matches of a definition's pattern against a text, as the
  loop reads it: a definition whose pattern does not match is passed over (count 0).
\<close>

definition matchCount :: "stepDef \<Rightarrow> string \<Rightarrow> nat" where
  "matchCount sd text =
     (if MatchString (prog (expr sd)) text then length (FindAll (prog (expr sd)) text) else 0)"

lemma MatchString_FindAll: "MatchString re text \<Longrightarrow> FindAll re text \<noteq> []"
  by (auto simp: MatchString_def FindAll_def allMatches.simps [of re "text" _ "0" "0"] Let_def)

lemma matchCount_pos: "MatchString (prog (expr sd)) text \<longleftrightarrow> 0 < matchCount sd text"
  using MatchString_FindAll [of "prog (expr sd)" "text"] by (auto simp: matchCount_def)

lemma findLoop_step:
  "findLoop (x # xs) text found sd =
     (if found < matchCount x text then findLoop xs text (matchCount x text) (Some x)
      else findLoop xs text found sd)"
  by (simp add: matchCount_def)

lemma findLoop_no_better:
  "\<forall>x\<in>set xs. matchCount x text \<le> found \<Longrightarrow> findLoop xs text found sd = sd"
  by (induction xs arbitrary: found sd) (auto simp: findLoop_step simp del: findLoop.simps(2))

lemma findLoop_index:
  assumes "i < length xs" "found < matchCount (xs ! i) text"
    and "\<forall>j<length xs. matchCount (xs ! j) text \<le> matchCount (xs ! i) text"
    and "\<forall>j<i. matchCount (xs ! j) text \<noteq> matchCount (xs ! i) text"
  shows "findLoop xs text found sd = Some (xs ! i)"
  using assms
proof (induction xs arbitrary: i found sd)
  case Nil
  then show ?case by simp
next
  case (Cons x xs)
  show ?case
  proof (cases i)
    case 0
    with Cons.prems have "\<forall>y\<in>set xs. matchCount y text \<le> matchCount x text"
      by (auto simp: in_set_conv_nth) (metis Suc_less_eq nth_Cons_Suc)
    with 0 Cons.prems show ?thesis
      by (simp add: findLoop_step findLoop_no_better del: findLoop.simps(2))
  next
    case (Suc k)
    with Cons.prems have k: "k < length xs" by simp
    from Suc Cons.prems(3) have mx: "\<forall>j<length xs. matchCount (xs ! j) text \<le> matchCount (xs ! k) text"
      by auto
    from Suc Cons.prems(4) have fst: "\<forall>j<k. matchCount (xs ! j) text \<noteq> matchCount (xs ! k) text"
      by auto
    from Suc Cons.prems(3) [rule_format, of 0] Cons.prems(4) [rule_format, of 0]
    have lt: "matchCount x text < matchCount (xs ! k) text" by simp
    from Suc Cons.prems(2) have fk: "found < matchCount (xs ! k) text" by simp
    show ?thesis
      using Cons.IH [OF k lt mx fst] Cons.IH [OF k fk mx fst] Suc
      by (simp add: findLoop_step del: findLoop.simps(2))
  qed
qed

lemma findLoop_cases:
  "findLoop xs text found sd = sd \<and> (\<forall>x\<in>set xs. matchCount x text \<le> found)
   \<or> (\<exists>r\<in>set xs. findLoop xs text found sd = Some r \<and> found < matchCount r text
        \<and> (\<forall>x\<in>set xs. matchCount x text \<le> matchCount r text))"
proof (induction xs arbitrary: found sd)
  case Nil
  then show ?case by simp
next
  case (Cons x xs)
  show ?case
  proof (cases "found < matchCount x text")
    case True
    from Cons.IH [of "matchCount x text" "Some x"] True show ?thesis
      by (auto simp: findLoop_step simp del: findLoop.simps(2)) 
  next
    case False
    from Cons.IH [of found sd] False show ?thesis
      by (auto simp: findLoop_step simp del: findLoop.simps(2)) 
  qed
qed


lemma findStepDef_cases:
  "(findStepDef s text = Inl CannotFindStepDefinition \<and> (\<forall>x\<in>set (steps s). matchCount x text = 0))
   \<or> (\<exists>r\<in>set (steps s). findStepDef s text = Inr r \<and> 0 < matchCount r text
        \<and> (\<forall>x\<in>set (steps s). matchCount x text \<le> matchCount r text))"
  using findLoop_cases [of "steps s" "text" 0 None]
  by (auto simp: findStepDef_def)

lemma findStepDef_Inr_iff:
  "(\<exists>sd. findStepDef s text = Inr sd) \<longleftrightarrow> (\<exists>x\<in>set (steps s). MatchString (prog (expr x)) text)"
  using findStepDef_cases [of s "text"] by (auto simp: matchCount_pos)

subsection \<open>Two suites for the example of the tie-break rule\<close>

text \<open>
  A suite as \<open>NewSuite\<close> returns it with the default options, and the two orders of
  registering the patterns \<open>a (.*) number\<close> and \<open>a 5 number\<close>.
\<close>

definition freshSuite :: Suite where
  "freshSuite =
     (case NewSuite NewSuiteOptions of
        Inr s \<Rightarrow> s
      | Inl e \<Rightarrow> \<lparr>steps = [], options = NewSuiteOptions, hasStepErrors = True,
                  parameterTypes = [], tFailed = True, outsideModel = False\<rparr>)"

definition wildFirst :: Suite where
  "wildFirst =
     AddStep ''a 5 number'' (Func 2 [KStepTest, KContext])
       (AddStep ''a (.*) number'' (Func 1 [KStepTest, KContext, KString]) freshSuite)"

definition literalFirst :: Suite where
  "literalFirst =
     AddStep ''a (.*) number'' (Func 1 [KStepTest, KContext, KString])
       (AddStep ''a 5 number'' (Func 2 [KStepTest, KContext]) freshSuite)"

lemma NewSuite_builtin:
  "NewSuite opts =
     Inr \<lparr>steps = [], options = opts, hasStepErrors = False,
          parameterTypes =
            [(''{int}'', [frag_int]), (''{float}'', [frag_float]), (''{word}'', [frag_word]),
             (''{text}'', [frag_text_dq, frag_text_sq])],
          tFailed = False, outsideModel = False\<rparr>"
  by code_simp

section \<open>Argument coercion and the call of a step function\<close>

subsection \<open>Numbers from text\<close>

text \<open>
  \<open>strconv.Atoi\<close> of Go's library, for the 64-bit \<open>int\<close>: the value and the error
  returned with it. A text that is not a decimal numeral gives 0 and a syntax error; a
  numeral out of range gives the nearest end of the range and a range error.
\<close>

datatype numError = ErrSyntax | ErrRange

definition digitVal :: "char \<Rightarrow> int" where
  "digitVal c = of_char c - 48"

fun parseUintLoop :: "string \<Rightarrow> int \<Rightarrow> int \<times> numError option" where
  "parseUintLoop [] n = (n, None)"
| "parseUintLoop (c # cs) n =
     (if \<not> isdigit c then (0, Some ErrSyntax)
      else if n \<ge> (2 ^ 64 - 1) div 10 + 1 then (2 ^ 64 - 1, Some ErrRange)
      else if n * 10 + digitVal c > 2 ^ 64 - 1 then (2 ^ 64 - 1, Some ErrRange)
      else parseUintLoop cs (n * 10 + digitVal c))"

definition ParseUint :: "string \<Rightarrow> int \<times> numError option" where
  "ParseUint s = (if s = [] then (0, Some ErrSyntax) else parseUintLoop s 0)"

definition ParseInt :: "string \<Rightarrow> int \<times> numError option" where
  "ParseInt s =
     (if s = [] then (0, Some ErrSyntax)
      else
        (let neg = (hd s = CHR ''-'');
             s1 = (if hd s = CHR ''+'' \<or> hd s = CHR ''-'' then tl s else s);
             un = fst (ParseUint s1);
             err = snd (ParseUint s1)
         in if err = Some ErrSyntax then (0, Some ErrSyntax)
            else if \<not> neg \<and> un \<ge> 2 ^ 63 then (2 ^ 63 - 1, Some ErrRange)
            else if neg \<and> un > 2 ^ 63 then (- (2 ^ 63), Some ErrRange)
            else (if neg then - un else un, None)))"

fun atoiDigits :: "string \<Rightarrow> int \<Rightarrow> int option" where
  "atoiDigits [] n = Some n"
| "atoiDigits (c # cs) n = (if \<not> isdigit c then None else atoiDigits cs (n * 10 + digitVal c))"

definition Atoi :: "string \<Rightarrow> int \<times> numError option" where
  "Atoi s =
     (if 0 < length s \<and> length s < 19 then
        (let s1 = (if hd s = CHR ''-'' \<or> hd s = CHR ''+'' then tl s else s)
         in if s1 = [] then (0, Some ErrSyntax)
            else (case atoiDigits s1 0 of
                    None \<Rightarrow> (0, Some ErrSyntax)
                  | Some n \<Rightarrow> (if hd s = CHR ''-'' then - n else n, None)))
      else ParseInt s)"

text \<open>
  \<open>strconv.ParseFloat\<close> of Go's library (atof.go), which is not code of the repository
  either. A floating-point value is a signed binary fraction, an infinity or a NaN:
  \<open>FNum neg m e\<close> is the number \<open>m * 2 ^ e\<close> with the sign \<open>neg\<close>, where \<open>m\<close> is odd, and
  \<open>FNum neg 0 0\<close> is the zero of that sign. The function answers, as \<open>Atoi\<close> does, with
  a value and an error: a text that is no floating-point numeral gives 0 and a syntax
  error; a numeral too large for the size gives an infinity and a range error.
\<close>

datatype float = FNum bool int int | FInf bool | FNaN

text \<open>\<open>special\<close>: the texts \<open>inf\<close>, \<open>infinity\<close> (with a sign or none) and \<open>nan\<close>, in any
  case of the letters. The result is the value and the number of bytes read.\<close>

definition lowerAZ :: "char \<Rightarrow> char" where
  "lowerAZ c =
     (if 65 \<le> (of_char c :: nat) \<and> (of_char c :: nat) \<le> 90
      then char_of ((of_char c :: nat) + 32) else c)"

fun commonPrefixLenIgnoreCase :: "string \<Rightarrow> string \<Rightarrow> nat" where
  "commonPrefixLenIgnoreCase (c # s) (p # prefix) =
     (if lowerAZ c = p then Suc (commonPrefixLenIgnoreCase s prefix) else 0)"
| "commonPrefixLenIgnoreCase s prefix = 0"

definition infinityPrefix :: "bool \<Rightarrow> nat \<Rightarrow> string \<Rightarrow> (float \<times> nat) option" where
  "infinityPrefix neg nsign s =
     (let n0 = commonPrefixLenIgnoreCase s ''infinity'';
          n = (if 3 < n0 \<and> n0 < 8 then 3 else n0)
      in if n = 3 \<or> n = 8 then Some (FInf neg, nsign + n) else None)"

definition special :: "string \<Rightarrow> (float \<times> nat) option" where
  "special s =
     (case s of
        [] \<Rightarrow> None
      | c # t \<Rightarrow>
          if c = CHR ''+'' \<or> c = CHR ''-'' then infinityPrefix (c = CHR ''-'') 1 t
          else if c = CHR ''i'' \<or> c = CHR ''I'' then infinityPrefix False 0 s
          else if c = CHR ''n'' \<or> c = CHR ''N'' then
            (if commonPrefixLenIgnoreCase s ''nan'' = 3 then Some (FNaN, 3) else None)
          else None)"

text \<open>
  \<open>readFloat\<close>: the sign, the digits with at most one point, and the exponent; after the
  prefix \<open>0x\<close> the digits are hexadecimal and the exponent, then required, is a power of
  two after \<open>p\<close>. Underscores are passed over and checked at the end (\<open>underscoreOK\<close>).
  The record holds the variables of the loop over the digits. The library keeps the
  first 19 digits (16 hexadecimal ones) in a machine word and notes that more were
  cut, and goes back to the text where those do not decide the rounding; here \<open>mantissa\<close>
  holds all the digits, which denotes the same number. The exponent is read as the
  library reads it: it stops growing at 10000.
\<close>

definition isHexLetter :: "char \<Rightarrow> bool" where
  "isHexLetter c =
     ((65 \<le> (of_char c :: nat) \<and> (of_char c :: nat) \<le> 70)
      \<or> (97 \<le> (of_char c :: nat) \<and> (of_char c :: nat) \<le> 102))"

definition hexVal :: "char \<Rightarrow> int" where
  "hexVal c = (if 97 \<le> (of_char c :: nat) then of_char c - 87 else of_char c - 55)"

record digits =
  sawdot :: bool
  sawdigits :: bool
  nd :: int
  dp :: int
  mantissa :: int
  underscores :: bool

fun readDigits :: "bool \<Rightarrow> string \<Rightarrow> digits \<Rightarrow> digits \<times> string" where
  "readDigits hex [] st = (st, [])"
| "readDigits hex (c # cs) st =
     (if c = CHR ''_'' then readDigits hex cs (st\<lparr>underscores := True\<rparr>)
      else if c = CHR ''.'' then
        (if sawdot st then (st, c # cs)
         else readDigits hex cs (st\<lparr>sawdot := True, dp := nd st\<rparr>))
      else if isdigit c then
        (if c = CHR ''0'' \<and> nd st = 0
         then readDigits hex cs (st\<lparr>sawdigits := True, dp := dp st - 1\<rparr>)
         else readDigits hex cs
                (st\<lparr>sawdigits := True, nd := nd st + 1,
                    mantissa := mantissa st * (if hex then 16 else 10) + digitVal c\<rparr>))
      else if hex \<and> isHexLetter c then
        readDigits hex cs
          (st\<lparr>sawdigits := True, nd := nd st + 1, mantissa := mantissa st * 16 + hexVal c\<rparr>)
      else (st, c # cs))"

fun readExponent :: "string \<Rightarrow> int \<Rightarrow> bool \<Rightarrow> int \<times> bool \<times> string" where
  "readExponent [] e u = (e, u, [])"
| "readExponent (c # cs) e u =
     (if c = CHR ''_'' then readExponent cs e True
      else if isdigit c then readExponent cs (if e < 10000 then e * 10 + digitVal c else e) u
      else (e, u, c # cs))"

text \<open>\<open>underscoreOK\<close>: an underscore must stand between two digits, or between the base
  prefix and a digit.\<close>

datatype saw = SawStart | SawDigit | SawUnderscore | SawOther

fun underscoreLoop :: "bool \<Rightarrow> string \<Rightarrow> saw \<Rightarrow> bool" where
  "underscoreLoop hex [] sw = (sw \<noteq> SawUnderscore)"
| "underscoreLoop hex (c # cs) sw =
     (if isdigit c \<or> (hex \<and> isHexLetter c) then underscoreLoop hex cs SawDigit
      else if c = CHR ''_'' then (if sw \<noteq> SawDigit then False else underscoreLoop hex cs SawUnderscore)
      else if sw = SawUnderscore then False
      else underscoreLoop hex cs SawOther)"

definition underscoreOK :: "string \<Rightarrow> bool" where
  "underscoreOK s =
     (let s1 = (if s \<noteq> [] \<and> (hd s = CHR ''-'' \<or> hd s = CHR ''+'') then tl s else s);
          pre = (2 \<le> length s1 \<and> hd s1 = CHR ''0''
                  \<and> s1 ! 1 \<in> set ''bBoOxX'');
          hex = (pre \<and> (s1 ! 1 = CHR ''x'' \<or> s1 ! 1 = CHR ''X''))
      in underscoreLoop hex (if pre then drop 2 s1 else s1) (if pre then SawDigit else SawStart))"

text \<open>
  The result of \<open>readFloat\<close>, when the text begins with a numeral: the digits \<open>m\<close> as a
  whole number, the exponent \<open>ex\<close> of the base (the numeral denotes \<open>m * 10 ^ ex\<close>, or
  \<open>m * 2 ^ ex\<close> if hexadecimal), the sign, whether it is hexadecimal, and the number of
  bytes read.
\<close>

definition readDone ::
  "string \<Rightarrow> int \<Rightarrow> int \<Rightarrow> bool \<Rightarrow> bool \<Rightarrow> bool \<Rightarrow> string
     \<Rightarrow> (int \<times> int \<times> bool \<times> bool \<times> nat) option" where
  "readDone s m ex neg hex u rest =
     (let i = length s - length rest
      in if u \<and> \<not> underscoreOK (take i s) then None else Some (m, ex, neg, hex, i))"

definition readFloat :: "string \<Rightarrow> (int \<times> int \<times> bool \<times> bool \<times> nat) option" where
  "readFloat s =
     (if s = [] then None
      else
        (let neg = (hd s = CHR ''-'');
             s1 = (if hd s = CHR ''+'' \<or> hd s = CHR ''-'' then tl s else s);
             hex = (2 < length s1 \<and> hd s1 = CHR ''0''
                     \<and> (s1 ! 1 = CHR ''x'' \<or> s1 ! 1 = CHR ''X''));
             rd = readDigits hex (if hex then drop 2 s1 else s1)
                    \<lparr>sawdot = False, sawdigits = False, nd = 0, dp = 0, mantissa = 0,
                     underscores = False\<rparr>;
             st = fst rd;
             s2 = snd rd
         in if \<not> sawdigits st then None
            else
              (let dp1 = (if sawdot st then dp st else nd st);
                   dp2 = (if hex then dp1 * 4 else dp1);
                   ndMant = (if hex then nd st * 4 else nd st)
               in if s2 \<noteq> [] \<and> (if hex then hd s2 = CHR ''p'' \<or> hd s2 = CHR ''P''
                                   else hd s2 = CHR ''e'' \<or> hd s2 = CHR ''E'')
                  then
                    (let s3 = tl s2
                     in if s3 = [] then None
                        else
                          (let esign = (if hd s3 = CHR ''-'' then - 1 else 1);
                               s4 = (if hd s3 = CHR ''+'' \<or> hd s3 = CHR ''-'' then tl s3 else s3)
                           in if s4 = [] \<or> \<not> isdigit (hd s4) then None
                              else
                                (let x = readExponent s4 0 (underscores st)
                                 in readDone s (mantissa st) (dp2 + fst x * esign - ndMant)
                                      neg hex (fst (snd x)) (snd (snd x)))))
                  else if hex then None
                  else readDone s (mantissa st) (dp2 - ndMant) neg hex (underscores st) s2)))"

text \<open>
  The conversion to the nearest value of the size, ties going to the even mantissa (the
  library computes this rounding, by several algorithms, for decimal numerals of up to
  800 digits and for all hexadecimal ones). \<open>roundBits\<close> rounds the positive fraction
  \<open>num / den\<close> to \<open>mantbits + 1\<close> binary digits, the exponent of the leading digit being
  at least \<open>emin\<close>; \<open>None\<close> says that the rounded value exceeds the largest of the size.
  \<open>shl x k\<close> is \<open>x * 2 ^ k\<close> for a positive \<open>k\<close>; \<open>twos\<close> makes the mantissa odd.
\<close>

function bitLen :: "int \<Rightarrow> int" where
  "bitLen n = (if n \<le> 0 then 0 else bitLen (n div 2) + 1)"
  by pat_completeness auto
termination
  by (relation "measure nat") auto

declare bitLen.simps [simp del]

definition shl :: "int \<Rightarrow> int \<Rightarrow> int" where
  "shl x k = (if 0 < k then x * 2 ^ nat k else x)"

definition floorLog2 :: "int \<Rightarrow> int \<Rightarrow> int" where
  "floorLog2 num den =
     (let e0 = bitLen num - bitLen den
      in if shl den e0 \<le> shl num (- e0) then e0 else e0 - 1)"

function twos :: "int \<Rightarrow> int \<Rightarrow> int \<times> int" where
  "twos m e = (if m = 0 then (0, 0) else if even m then twos (m div 2) (e + 1) else (m, e))"
  by pat_completeness auto
termination
  by (relation "measure (\<lambda>(m, e). nat \<bar>m\<bar>)") auto

declare twos.simps [simp del]

definition roundBits :: "nat \<Rightarrow> int \<Rightarrow> int \<Rightarrow> int \<Rightarrow> int \<Rightarrow> (int \<times> int) option" where
  "roundBits mantbits emin emax num den =
     (let e = max (floorLog2 num den) emin
      in if emax < e then None
         else
           (let sh = e - int mantbits;
                a = shl num (- sh);
                b = shl den sh;
                q = a div b;
                r = a mod b;
                m = (if 2 * r < b then q
                     else if b < 2 * r then q + 1
                     else if even q then q else q + 1)
            in if 2 ^ nat (emax + 1 - sh) \<le> m then None else Some (twos m sh)))"

text \<open>\<open>atof32\<close> and \<open>atof64\<close>, chosen by \<open>bitSize = 32\<close> as \<open>parseFloatPrefix\<close> does.\<close>

definition atof :: "nat \<Rightarrow> string \<Rightarrow> float \<times> nat \<times> numError option" where
  "atof bitSize s =
     (case special s of
        Some vn \<Rightarrow> (fst vn, snd vn, None)
      | None \<Rightarrow>
          (case readFloat s of
             None \<Rightarrow> (FNum False 0 0, 0, Some ErrSyntax)
           | Some (m, ex, neg, hex, i) \<Rightarrow>
               if m = 0 then (FNum neg 0 0, i, None)
               else
                 (let num = (if hex then shl m ex else if 0 \<le> ex then m * 10 ^ nat ex else m);
                      den = (if hex then shl 1 (- ex) else if 0 \<le> ex then 1 else 10 ^ nat (- ex));
                      rb = (if bitSize = 32 then roundBits 23 (- 126) 127 num den
                            else roundBits 52 (- 1022) 1023 num den)
                  in case rb of
                       None \<Rightarrow> (FInf neg, i, Some ErrRange)
                     | Some me \<Rightarrow> (FNum neg (fst me) (snd me), i, None))))"

text \<open>\<open>ParseFloat\<close>: a text that goes on after the numeral is a syntax error.\<close>

definition strconvParseFloat :: "string \<Rightarrow> nat \<Rightarrow> float \<times> numError option" where
  "strconvParseFloat s bitSize =
     (case atof bitSize s of
        (v, i, err) \<Rightarrow>
          if i \<noteq> length s \<and> err \<noteq> Some ErrSyntax then (FNum False 0 0, Some ErrSyntax)
          else (v, err))"

subsection \<open>The environment of a run\<close>

text \<open>
  The argument values the engine builds by reflection. What the engine does with a
  floating-point number does not depend on how it was computed: \<open>'f\<close> is the type of the
  values that \<open>ParseFloat\<close> returns, and the function is a parameter of a run. The
  statements about floating-point captures are made for a run whose \<open>ParseFloat\<close> is the
  library's, \<open>strconvParseFloat\<close> above, with \<open>float\<close> for \<open>'f\<close>.
\<close>

datatype 'f rvalue = VBytes string | VString string | VInt int | VFloat32 'f | VFloat64 'f

text \<open>
  The execution context maps keys to values. The two entries the engine keeps for itself
  (the current \<open>*testing.T\<close> under \<open>TestingTKey{}\<close> and the start time under
  \<open>time.Time{}\<close>) are left out; a step function or hook that overwrote them is outside the
  model.
\<close>

type_synonym Context = "string \<Rightarrow> string option"

text \<open>
  What a call of a step function does: it may change the context, and it ends in one of
  three ways. \<open>Returned failed\<close>: it returns, having marked its \<open>*testing.T\<close> failed
  (\<open>Error\<close>, \<open>Fail\<close>) or not. \<open>Exited failed skipped\<close>: it ends its goroutine with
  \<open>runtime.Goexit\<close>, through \<open>FailNow\<close> or \<open>Fatal\<close> (failed) or through \<open>SkipNow\<close>
  (skipped). \<open>Panicked\<close>: it panics.
\<close>

datatype signal = Returned bool | Exited bool bool | Panicked

record outcome =
  ctxAfter :: Context
  signal :: signal

text \<open>What \<open>t.Failed()\<close> and \<open>t.Skipped()\<close> say after the call (a recovered panic is
  reported with \<open>t.Errorf\<close>), and whether control came back to the caller.\<close>

fun sigFailed :: "signal \<Rightarrow> bool" where
  "sigFailed (Returned fl) = fl"
| "sigFailed (Exited fl sk) = fl"
| "sigFailed Panicked = True"

fun sigSkipped :: "signal \<Rightarrow> bool" where
  "sigSkipped (Returned fl) = False"
| "sigSkipped (Exited fl sk) = sk"
| "sigSkipped Panicked = False"

fun sigReturned :: "signal \<Rightarrow> bool" where
  "sigReturned (Returned fl) = True"
| "sigReturned (Exited fl sk) = False"
| "sigReturned Panicked = True"

text \<open>
  The code the engine calls but does not contain: \<open>ParseFloat\<close>, the body of every step
  function (named by the number in \<open>Func\<close>) and the body of every hook. A hook is taken
  to return normally.
\<close>

record 'f env =
  ParseFloat :: "string \<Rightarrow> nat \<Rightarrow> 'f \<times> numError option"
  handlerBody :: "nat \<Rightarrow> 'f rvalue list \<Rightarrow> Context \<Rightarrow> outcome"
  hookBody :: "nat \<Rightarrow> Context \<Rightarrow> Context"

subsection \<open>paramType and stepDef.run\<close>

text \<open>
  \<open>paramType\<close>: the four tests on the kind of the parameter, in the order of the source.
  The error of \<open>Atoi\<close> and of \<open>ParseFloat\<close> is dropped (\<open>p, _ := ...\<close>); both float
  kinds are parsed with bit size 32.
\<close>

definition paramType :: "'f env \<Rightarrow> string \<Rightarrow> kind \<Rightarrow> 'f rvalue" where
  "paramType e param inType =
     (let v0 = VBytes param;
          v1 = (if inType = KString then VString param else v0);
          v2 = (if inType = KInt then VInt (fst (Atoi param)) else v1);
          v3 = (if inType = KFloat32 then VFloat32 (fst (ParseFloat e param 32)) else v2);
          v4 = (if inType = KFloat64 then VFloat64 (fst (ParseFloat e param 32)) else v3)
      in v4)"

text \<open>
  Whether \<open>reflect.Value.Call\<close> accepts the arguments: the first two are the
  \<open>*testing.T\<close> and the context, and a value made by \<open>paramType\<close> fits a parameter of the
  kind it was made for; for any other kind it is a byte slice, which fits \<open>[]byte\<close> only.
\<close>

definition callable :: "kind list \<Rightarrow> bool" where
  "callable ks = (take 2 ks = [KStepTest, KContext] \<and> KOther \<notin> set (drop 2 ks)
     \<and> KStepTest \<notin> set (drop 2 ks) \<and> KContext \<notin> set (drop 2 ks))"

datatype 'f event =
    BeforeScenarioHook nat
  | AfterScenarioHook nat
  | BeforeStepHook nat
  | AfterStepHook nat
  | HandlerCall nat "'f rvalue list"

text \<open>
  The result of \<open>def.run(ctx, t, params)\<close>: the calls made, the context, the marks on the
  step's \<open>*testing.T\<close> and whether \<open>run\<close> returned (else the goroutine of the step is
  ending by \<open>Goexit\<close>). A panic of the step function, or of the reflective call, is
  recovered by the deferred function of \<open>run\<close> and reported with \<open>t.Errorf\<close>.
\<close>

record 'f runResult =
  calls :: "'f event list"
  ctxOut :: Context
  tFailedOut :: bool
  tSkippedOut :: bool
  returned :: bool

text \<open>The loop of \<open>run\<close> that builds the arguments after \<open>t\<close> and \<open>ctx\<close>: capture \<open>i\<close> is
  converted for the parameter \<open>i + 2\<close>.\<close>

definition coerce :: "'f env \<Rightarrow> string list \<Rightarrow> kind list \<Rightarrow> 'f rvalue list" where
  "coerce e params ks = map (\<lambda>(v, k). paramType e v k) (zip params (drop 2 ks))"

definition run :: "'f env \<Rightarrow> stepDef \<Rightarrow> Context \<Rightarrow> string list \<Rightarrow> 'f runResult" where
  "run e def ctx params =
     (case f def of
        NotAFunc \<Rightarrow>
          \<lparr>calls = [], ctxOut = ctx, tFailedOut = True, tSkippedOut = False, returned = True\<rparr>
      | Func i ks \<Rightarrow>
          if length params + 2 \<noteq> length ks then
            \<lparr>calls = [], ctxOut = ctx, tFailedOut = True, tSkippedOut = False, returned = False\<rparr>
          else if \<not> callable ks then
            \<lparr>calls = [], ctxOut = ctx, tFailedOut = True, tSkippedOut = False, returned = True\<rparr>
          else
            (let ins = coerce e params ks;
                 out = handlerBody e i ins ctx
             in \<lparr>calls = [HandlerCall i ins], ctxOut = ctxAfter out,
                 tFailedOut = sigFailed (signal out),
                 tSkippedOut = sigSkipped (signal out),
                 returned = sigReturned (signal out)\<rparr>))"

section \<open>The document model and outline expansion\<close>

text \<open>
  The parsed feature document (package \<open>messages\<close>), as far as the engine reads it. A table
  row is the list of the values of its cells. The fields carry a prefix for the record
  they belong to: \<open>stText\<close> is \<open>Step.Text\<close>, \<open>scSteps\<close> is \<open>Scenario.Steps\<close>, and so on.
\<close>

record Tag =
  tgName :: string
  tgLine :: nat

record GStep =
  stLine :: nat
  stKeyword :: string
  stText :: string
  stArgument :: "string option"

record Examples =
  TableHeader :: "string list"
  TableBody :: "string list list"

record Scenario =
  scLine :: nat
  scTags :: "Tag list"
  scKeyword :: string
  scName :: string
  scDescription :: string
  scSteps :: "GStep list"
  scExamples :: "Examples list"
  scId :: string

record Background =
  bgSteps :: "GStep list"

datatype FeatureChild = ChildBackground Background | ChildScenario Scenario | ChildRule

record Feature =
  ftLine :: nat
  ftTags :: "Tag list"
  ftKeyword :: string
  ftName :: string
  ftDescription :: string
  ftChildren :: "FeatureChild list"

text \<open>A panic that nothing recovers ends the test binary.\<close>

datatype panic = IndexOutOfRange | NilDereference

definition frag_digits :: string where "frag_digits = ''('' @ bs # ''d+)''"
definition frag_decimal :: string where "frag_decimal = ''([+-]?([0-9]*[.])?[0-9]+)''"
definition frag_any :: string where "frag_any = ''(.*)''"

definition getRegexpForVar :: "'f env \<Rightarrow> string \<Rightarrow> string" where
  "getRegexpForVar e s =
     (if snd (Atoi s) = None then frag_digits
      else if snd (ParseFloat e s 32) = None then frag_decimal
      else frag_any)"

text \<open>
  \<open>stepFromExample\<close>: the loop over the placeholders reads \<open>row.Cells[i]\<close>, which panics
  when the row has fewer cells than the header.
\<close>

fun stepFromExample ::
  "'f env \<Rightarrow> string \<Rightarrow> string \<Rightarrow> string list \<Rightarrow> string list \<Rightarrow> panic + (string \<times> string)" where
  "stepFromExample e stepName ex cells [] = Inr (stepName, ex)"
| "stepFromExample e stepName ex [] (ph # phs) = Inl IndexOutOfRange"
| "stepFromExample e stepName ex (c # cells) (ph # phs) =
     stepFromExample e (Replace stepName ph c) (Replace ex ph (getRegexpForVar e c)) cells phs"

text \<open>The loop of \<open>stepsFromExamples\<close> over the body rows; the suite is changed by
  \<open>AddStep\<close>, so it is passed along.\<close>

fun rowsLoop ::
  "'f env \<Rightarrow> GStep \<Rightarrow> string list \<Rightarrow> string list list \<Rightarrow> Suite \<Rightarrow> panic + (Suite \<times> GStep list)" where
  "rowsLoop e sourceStep phs [] s = Inr (s, [])"
| "rowsLoop e sourceStep phs (row # rows) s =
     (case stepFromExample e (stText sourceStep) (stText sourceStep) row phs of
        Inl p \<Rightarrow> Inl p
      | Inr se \<Rightarrow>
          (case findStepDef s (fst se) of
             Inl err \<Rightarrow> rowsLoop e sourceStep phs rows s
           | Inr def \<Rightarrow>
               (case rowsLoop e sourceStep phs rows (AddStep (snd se) (f def) s) of
                  Inl p \<Rightarrow> Inl p
                | Inr r \<Rightarrow> Inr (fst r, sourceStep\<lparr>stText := fst se\<rparr> # snd r))))"

definition stepsFromExamples ::
  "'f env \<Rightarrow> Suite \<Rightarrow> GStep \<Rightarrow> Examples \<Rightarrow> panic + (Suite \<times> GStep list)" where
  "stepsFromExamples e s sourceStep example =
     rowsLoop e sourceStep (map (\<lambda>p. ''<'' @ p @ ''>'') (TableHeader example)) (TableBody example) s"

text \<open>The first pair of loops of \<open>getOutlineStep\<close>: \<open>stepsList[i]\<close> collects, over all
  examples, the steps made from the outline step \<open>i\<close>.\<close>

fun examplesLoop ::
  "'f env \<Rightarrow> GStep \<Rightarrow> Examples list \<Rightarrow> Suite \<Rightarrow> panic + (Suite \<times> GStep list)" where
  "examplesLoop e outlineStep [] s = Inr (s, [])"
| "examplesLoop e outlineStep (example # examples) s =
     (case stepsFromExamples e s outlineStep example of
        Inl p \<Rightarrow> Inl p
      | Inr r \<Rightarrow>
          (case examplesLoop e outlineStep examples (fst r) of
             Inl p \<Rightarrow> Inl p
           | Inr r' \<Rightarrow> Inr (fst r', snd r @ snd r')))"

fun stepsListLoop ::
  "'f env \<Rightarrow> GStep list \<Rightarrow> Examples list \<Rightarrow> Suite \<Rightarrow> panic + (Suite \<times> GStep list list)" where
  "stepsListLoop e [] examples s = Inr (s, [])"
| "stepsListLoop e (outlineStep # rest) examples s =
     (case examplesLoop e outlineStep examples s of
        Inl p \<Rightarrow> Inl p
      | Inr r \<Rightarrow>
          (case stepsListLoop e rest examples (fst r) of
             Inl p \<Rightarrow> Inl p
           | Inr r' \<Rightarrow> Inr (fst r', snd r # snd r')))"

text \<open>The second nest of loops reads \<open>stepsList[si][ci]\<close>, which panics when the list
  of step \<open>si\<close> is shorter than the body of an example.\<close>

fun pickSteps :: "GStep list list \<Rightarrow> nat \<Rightarrow> panic + GStep list" where
  "pickSteps [] ci = Inr []"
| "pickSteps (l # ls) ci =
     (if ci < length l
      then (case pickSteps ls ci of Inl p \<Rightarrow> Inl p | Inr r \<Rightarrow> Inr (l ! ci # r))
      else Inl IndexOutOfRange)"

fun pickRows :: "GStep list list \<Rightarrow> nat list \<Rightarrow> panic + GStep list" where
  "pickRows stepsList [] = Inr []"
| "pickRows stepsList (ci # cis) =
     (case pickSteps stepsList ci of
        Inl p \<Rightarrow> Inl p
      | Inr r \<Rightarrow> (case pickRows stepsList cis of Inl p \<Rightarrow> Inl p | Inr r' \<Rightarrow> Inr (r @ r')))"

fun pickExamples :: "GStep list list \<Rightarrow> Examples list \<Rightarrow> panic + GStep list" where
  "pickExamples stepsList [] = Inr []"
| "pickExamples stepsList (example # examples) =
     (case pickRows stepsList [0..<length (TableBody example)] of
        Inl p \<Rightarrow> Inl p
      | Inr r \<Rightarrow>
          (case pickExamples stepsList examples of Inl p \<Rightarrow> Inl p | Inr r' \<Rightarrow> Inr (r @ r')))"

definition getOutlineStep ::
  "'f env \<Rightarrow> Suite \<Rightarrow> GStep list \<Rightarrow> Examples list \<Rightarrow> panic + (Suite \<times> GStep list)" where
  "getOutlineStep e s stps examples =
     (case stepsListLoop e stps examples s of
        Inl p \<Rightarrow> Inl p
      | Inr r \<Rightarrow>
          if length (snd r) = 0 then Inr (fst r, [])
          else (case pickExamples (snd r) examples of
                  Inl p \<Rightarrow> Inl p
                | Inr newSteps \<Rightarrow> Inr (fst r, newSteps)))"

section \<open>The execution context\<close>

text \<open>
  Modelled from the spec: the type \<open>Context\<close> with \<open>NewContext\<close>, \<open>Set\<close>, \<open>Get\<close> and
  \<open>Clone\<close> is used by the engine but is not among the sources. The spec (section 3,
  Execution Context): a mapping from a key to a value; a clone operation produces an
  independent copy, so that mutations of the copy cannot leak. A \<open>Context\<close> value is a handle
  on its backing map: the maps live in a store, and a handle is an index into it.
\<close>

type_synonym store = "Context list"

definition NewContext :: "store \<Rightarrow> nat \<times> store" where
  "NewContext h = (length h, h @ [Map.empty])"

definition ctxSet :: "nat \<Rightarrow> string \<Rightarrow> string \<Rightarrow> store \<Rightarrow> store" where
  "ctxSet r k v h = h[r := (h ! r)(k \<mapsto> v)]"

definition ctxGet :: "nat \<Rightarrow> string \<Rightarrow> store \<Rightarrow> string option" where
  "ctxGet r k h = (h ! r) k"

definition Clone :: "nat \<Rightarrow> store \<Rightarrow> nat \<times> store" where
  "Clone r h = (length h, h @ [h ! r])"

section \<open>The report\<close>

text \<open>
  The structures of package \<open>cucumber\<close> (datatypes.go). The fields carry a prefix for their
  structure: \<open>rsName\<close> is \<open>Step.Name\<close>, \<open>rcSteps\<close> is \<open>Scenario.Steps\<close>, \<open>rfElements\<close> is
  \<open>Feature.Elements\<close>. Durations are measured with the clock and are left 0 here.
\<close>

record Stepresult =
  ErrorMsg :: string
  RunStatus :: string
  ExecutionTime :: int

record RStep =
  rsStepResult :: Stepresult
  rsMatch :: string
  rsKeyword :: string
  rsName :: string
  rsLine :: nat

record RTag =
  rtName :: string
  rtLinenumber :: nat

record RScenario =
  rcSteps :: "RStep list"
  rcTags :: "RTag list"
  rcId :: string
  rcKeyword :: string
  rcName :: string
  rcDescription :: string
  rcType :: string

record RFeature =
  rfElements :: "RScenario list"
  rfUri :: string
  rfId :: string
  rfKeyword :: string
  rfName :: string
  rfDescription :: string
  rfLinenumber :: nat

definition GenerateFeature :: "string \<Rightarrow> string \<Rightarrow> string \<Rightarrow> nat \<Rightarrow> RFeature" where
  "GenerateFeature name ident description line =
     \<lparr>rfElements = [], rfUri = name, rfId = ident, rfKeyword = ''Feature'', rfName = name,
      rfDescription = description, rfLinenumber = line\<rparr>"

definition AddScenario :: "RFeature \<Rightarrow> RScenario \<Rightarrow> RFeature" where
  "AddScenario ft sc = ft\<lparr>rfElements := rfElements ft @ [sc]\<rparr>"

definition GenerateStep :: "string \<Rightarrow> string \<Rightarrow> nat \<Rightarrow> string \<Rightarrow> RStep" where
  "GenerateStep keyword name line location =
     \<lparr>rsStepResult = \<lparr>ErrorMsg = [], RunStatus = [], ExecutionTime = 0\<rparr>, rsMatch = location,
      rsKeyword = keyword, rsName = name, rsLine = line\<rparr>"

definition AddStepObj :: "RScenario \<Rightarrow> RStep \<Rightarrow> RScenario" where
  "AddStepObj sc st = sc\<lparr>rcSteps := rcSteps sc @ [st]\<rparr>"

text \<open>\<open>Scenario.AddStep\<close> of the report (not the \<open>AddStep\<close> of the suite).\<close>

definition Scenario_AddStep ::
  "RScenario \<Rightarrow> string \<Rightarrow> string \<Rightarrow> nat \<Rightarrow> string \<Rightarrow> string \<Rightarrow> RScenario" where
  "Scenario_AddStep sc keyword name line location result =
     sc\<lparr>rcSteps := rcSteps sc @
          [\<lparr>rsStepResult = \<lparr>ErrorMsg = [], RunStatus = result, ExecutionTime = 0\<rparr>,
            rsMatch = location, rsKeyword = keyword, rsName = name, rsLine = line\<rparr>]\<rparr>"

definition UpdateResult :: "RStep \<Rightarrow> string \<Rightarrow> int \<Rightarrow> RStep" where
  "UpdateResult st status duration =
     st\<lparr>rsStepResult := \<lparr>ErrorMsg = [], RunStatus = status, ExecutionTime = duration\<rparr>\<rparr>"

definition FormatTags :: "Tag list \<Rightarrow> RTag list" where
  "FormatTags cucumberTags = map (\<lambda>t. \<lparr>rtName = tgName t, rtLinenumber = tgLine t\<rparr>) cucumberTags"

definition FormatScenario :: "Scenario \<Rightarrow> RScenario" where
  "FormatScenario sc =
     \<lparr>rcSteps = [], rcTags = FormatTags (scTags sc), rcId = scId sc, rcKeyword = scKeyword sc,
      rcName = scName sc, rcDescription = scDescription sc, rcType = scKeyword sc\<rparr>"

definition FormatScenarioWithSteps :: "Scenario \<Rightarrow> string \<Rightarrow> RScenario" where
  "FormatScenarioWithSteps sc stepstatus =
     foldl (\<lambda>r st. Scenario_AddStep r (stKeyword st) (stText st) (stLine st) [] stepstatus)
       (FormatScenario sc) (scSteps sc)"

definition FormatFeature :: "Feature \<Rightarrow> RFeature" where
  "FormatFeature ft = GenerateFeature (ftName ft) (ftName ft) (ftDescription ft) (ftLine ft)"

text \<open>
  The loop of \<open>FormatFeatureWithScenario\<close> formats \<open>child.GetScenario()\<close> for every child, with
  the empty string as the status of the steps. For a child that is not a scenario
  \<open>GetScenario\<close> returns nil, and \<open>FormatScenarioWithSteps\<close> reads the field \<open>Steps\<close> of nil.
\<close>

fun formatChildren :: "FeatureChild list \<Rightarrow> RFeature \<Rightarrow> panic + RFeature" where
  "formatChildren [] ft = Inr ft"
| "formatChildren (ChildScenario sc # rest) ft =
     formatChildren rest (AddScenario ft (FormatScenarioWithSteps sc []))"
| "formatChildren (child # rest) ft = Inl NilDereference"

definition FormatFeatureWithScenario :: "Feature \<Rightarrow> panic + RFeature" where
  "FormatFeatureWithScenario ft = formatChildren (ftChildren ft) (FormatFeature ft)"

section \<open>Execution\<close>

text \<open>
  The state a run works on: the suite (an outline registers step definitions while it is
  expanded), the store of the contexts, the calls of hooks and step functions made so
  far, and the names of the scenarios whose sub-test the test runner has marked failed.
\<close>

record 'f world =
  suite :: Suite
  heap :: store
  trace :: "'f event list"
  failedScenarios :: "string list"

fun contains :: "string list \<Rightarrow> string \<Rightarrow> bool" where
  "contains [] x = False"
| "contains (n # a) x = (if x = n then True else contains a x)"

definition skipScenario :: "Suite \<Rightarrow> Tag list \<Rightarrow> bool" where
  "skipScenario s scenarioTags =
     (if list_ex (\<lambda>tag. contains (ignoreTags (options s)) (tgName tag)) scenarioTags then True
      else if length (tags (options s)) = 0 then False
      else if list_ex (\<lambda>tag. contains (tags (options s)) (tgName tag)) scenarioTags then False
      else True)"

text \<open>\<open>callBeforeScenarios\<close>, \<open>callAfterScenarios\<close>, \<open>callBeforeSteps\<close> and \<open>callAfterSteps\<close>:
  the hooks of one list are called in order on the context \<open>r\<close>.\<close>

fun callHooks :: "(nat \<Rightarrow> 'f event) \<Rightarrow> nat list \<Rightarrow> 'f env \<Rightarrow> nat \<Rightarrow> 'f world \<Rightarrow> 'f world" where
  "callHooks mk [] e r w = w"
| "callHooks mk (hk # hks) e r w =
     callHooks mk hks e r
       (w\<lparr>heap := (heap w)[r := hookBody e hk (heap w ! r)], trace := trace w @ [mk hk]\<rparr>)"

definition generateFormattedStep :: "GStep \<Rightarrow> bool \<Rightarrow> bool \<Rightarrow> RStep" where
  "generateFormattedStep step isfailed isskipped =
     (let status0 = ''passed'';
          status1 = (if isfailed then ''failed'' else status0);
          status2 = (if isskipped then ''skipped'' else status1)
      in UpdateResult (GenerateStep (stKeyword step) (stText step) (stLine step) []) status2 0)"

text \<open>
  How \<open>runStep\<close> ends. \<open>Unresolved\<close>: no step definition was found and \<open>t.Fatalf\<close>, called
  on the \<open>*testing.T\<close> of the scenario, marks the scenario failed and ends its goroutine.
  \<open>StepDone st failed\<close>: the formatted step, and whether the sub-test of the step failed.
\<close>

datatype stepExit = Unresolved | StepDone RStep bool

text \<open>
  \<open>runStep\<close>. Inside the sub-test of the step: the before-step hooks, \<open>def.run\<close>, then the
  reading of \<open>t.Failed()\<close> and \<open>t.Skipped()\<close> into \<open>failed\<close> and \<open>skipped\<close>, which is
  reached only when \<open>run\<close> returned; the after-step hooks are deferred and run in every
  case. \<open>FindSubmatch\<close> finds a match, since the definition was chosen for matching.
\<close>

text \<open>\<open>params := def.expr.FindSubmatch([]byte(step.Text))[1:]\<close>\<close>

definition captures :: "stepDef \<Rightarrow> GStep \<Rightarrow> string list" where
  "captures def step =
     (case FindSubmatch (prog (expr def)) (stText step) of
        None \<Rightarrow> []
      | Some ms \<Rightarrow> tl ms)"

definition runStep :: "'f env \<Rightarrow> nat \<Rightarrow> GStep \<Rightarrow> 'f world \<Rightarrow> 'f world \<times> stepExit" where
  "runStep e r step w =
     (case findStepDef (suite w) (stText step) of
        Inl err \<Rightarrow> (w, Unresolved)
      | Inr def \<Rightarrow>
          (let params = captures def step;
               w1 = callHooks BeforeStepHook (beforeStep (options (suite w))) e r w;
               res = run e def (heap w1 ! r) params;
               w2 = w1\<lparr>heap := (heap w1)[r := ctxOut res], trace := trace w1 @ calls res\<rparr>;
               failed = (returned res \<and> tFailedOut res);
               skipped = (returned res \<and> tSkippedOut res);
               w3 = callHooks AfterStepHook (afterStep (options (suite w))) e r w2
           in (w3, StepDone (generateFormattedStep step failed skipped) (tFailedOut res))))"

text \<open>
  How \<open>runSteps\<close> ends: it returns the scenario with the formatted steps added, or the
  goroutine of the scenario is ending. The flag says whether the \<open>*testing.T\<close> of the
  scenario is marked failed (a failed sub-test marks its parent).
\<close>

datatype stepsExit = Completed RScenario | Exiting

fun runSteps ::
  "'f env \<Rightarrow> nat \<Rightarrow> GStep list \<Rightarrow> RScenario \<Rightarrow> 'f world \<Rightarrow> 'f world \<times> stepsExit \<times> bool" where
  "runSteps e r [] formattedscenario w = (w, Completed formattedscenario, False)"
| "runSteps e r (step # rest) formattedscenario w =
     (case runStep e r step w of
        (w1, Unresolved) \<Rightarrow> (w1, Exiting, True)
      | (w1, StepDone formattedstep failed) \<Rightarrow>
          (case runSteps e r rest (AddStepObj formattedscenario formattedstep) w1 of
             (w2, ex, failed') \<Rightarrow> (w2, ex, failed \<or> failed')))"

definition emptyScenario :: RScenario where
  "emptyScenario =
     \<lparr>rcSteps = [], rcTags = [], rcId = [], rcKeyword = [], rcName = [], rcDescription = [],
      rcType = []\<rparr>"

text \<open>
  \<open>runScenario\<close>. The after-scenario hooks are deferred: they run when the steps are
  done, when the goroutine is ending after an unresolved step, and while a panic of the
  outline expansion unwinds (nothing recovers that panic). The steps of the scenario run
  on a clone of the context; the hooks of the scenario and the background steps run on
  the context itself. \<open>formattedscenario\<close> is assigned only when \<open>runSteps\<close> returns.
\<close>

definition runScenario ::
  "'f env \<Rightarrow> nat \<Rightarrow> Scenario \<Rightarrow> Background option \<Rightarrow> 'f world
     \<Rightarrow> panic + ('f world \<times> RScenario \<times> bool)" where
  "runScenario e r scenario bkg w =
     (let formattedscenario = FormatScenario scenario;
          after = callHooks AfterScenarioHook (afterScenario (options (suite w))) e r;
          w1 = callHooks BeforeScenarioHook (beforeScenario (options (suite w))) e r w;
          b = (case bkg of
                 None \<Rightarrow> (w1, Completed emptyScenario, False)
               | Some bg \<Rightarrow> runSteps e r (bgSteps bg) emptyScenario w1)
      in case b of
           (w2, Exiting, fl) \<Rightarrow> Inr (after w2, formattedscenario, True)
         | (w2, Completed dropped, fl) \<Rightarrow>
             (let c = fst (Clone r (heap w2));
                  w3 = w2\<lparr>heap := snd (Clone r (heap w2))\<rparr>
              in if length (scExamples scenario) > 0 then
                   (case getOutlineStep e (suite w3) (scSteps scenario) (scExamples scenario) of
                      Inl p \<Rightarrow> Inl p
                    | Inr exp \<Rightarrow>
                        (case runSteps e c (snd exp) formattedscenario (w3\<lparr>suite := fst exp\<rparr>) of
                           (w4, Exiting, fl') \<Rightarrow> Inr (after w4, formattedscenario, True)
                         | (w4, Completed fs, fl') \<Rightarrow> Inr (after w4, fs, fl \<or> fl')))
                 else
                   (case runSteps e c (scSteps scenario) formattedscenario w3 of
                      (w4, Exiting, fl') \<Rightarrow> Inr (after w4, formattedscenario, True)
                    | (w4, Completed fs, fl') \<Rightarrow> Inr (after w4, fs, fl \<or> fl'))))"

text \<open>
  The body of the loop of \<open>runFeature\<close> over the children of the feature: the result is
  the state, the formatted feature and the background steps seen so far.
\<close>

definition runChild ::
  "'f env \<Rightarrow> FeatureChild \<Rightarrow> Background option \<Rightarrow> RFeature \<Rightarrow> 'f world
     \<Rightarrow> panic + ('f world \<times> RFeature \<times> Background option)" where
  "runChild e child bkgSteps formattedFeature w =
     (case child of
        ChildBackground bg \<Rightarrow> Inr (w, formattedFeature, Some bg)
      | ChildRule \<Rightarrow> Inr (w, formattedFeature, bkgSteps)
      | ChildScenario scenario \<Rightarrow>
          (let ctx = fst (NewContext (heap w));
               w0 = w\<lparr>heap := snd (NewContext (heap w))\<rparr>
           in if skipScenario (suite w) (scTags scenario) then
                Inr (w0, AddScenario formattedFeature (FormatScenarioWithSteps scenario ''skipped''),
                     bkgSteps)
              else
                (case runScenario e ctx scenario bkgSteps w0 of
                   Inl p \<Rightarrow> Inl p
                 | Inr (w1, formattedscenario, failed) \<Rightarrow>
                     Inr (w1\<lparr>failedScenarios :=
                               failedScenarios w1 @ (if failed then [scName scenario] else [])\<rparr>,
                          AddScenario formattedFeature formattedscenario, bkgSteps))))"

fun childrenLoop ::
  "'f env \<Rightarrow> FeatureChild list \<Rightarrow> Background option \<Rightarrow> RFeature \<Rightarrow> 'f world
     \<Rightarrow> panic + ('f world \<times> RFeature)" where
  "childrenLoop e [] bkgSteps formattedFeature w = Inr (w, formattedFeature)"
| "childrenLoop e (child # rest) bkgSteps formattedFeature w =
     (case runChild e child bkgSteps formattedFeature w of
        Inl p \<Rightarrow> Inl p
      | Inr (w1, ff, bkg) \<Rightarrow> childrenLoop e rest bkg ff w1)"

text \<open>\<open>runFeature\<close>: a feature with an ignored tag is formatted and not run.\<close>

definition runFeature :: "'f env \<Rightarrow> Feature \<Rightarrow> 'f world \<Rightarrow> panic + ('f world \<times> RFeature)" where
  "runFeature e feature w =
     (if list_ex (\<lambda>tag. contains (ignoreTags (options (suite w))) (tgName tag)) (ftTags feature)
      then (case FormatFeatureWithScenario feature of
              Inl p \<Rightarrow> Inl p
            | Inr ff \<Rightarrow> Inr (w, ff))
      else childrenLoop e (ftChildren feature) None (FormatFeature feature) w)"

section \<open>Properties of step resolution\<close>

text \<open>
  Claim C10. When several registered definitions match a step text with the same, greatest
  number of non-overlapping matches, \<open>findStepDef\<close> returns the one registered earliest:
  if the definition at index \<open>i\<close> matches, no definition has a greater count and no
  earlier definition has the same count, then the definition at index \<open>i\<close> is returned.
  The result is a function of the list of definitions in registration order.
\<close>

theorem findStepDef_earliest_of_ties:
  assumes "i < length (steps s)"
    and "MatchString (prog (expr (steps s ! i))) text"
    and "\<forall>j<length (steps s). matchCount (steps s ! j) text \<le> matchCount (steps s ! i) text"
    and "\<forall>j<i. matchCount (steps s ! j) text \<noteq> matchCount (steps s ! i) text"
  shows "findStepDef s text = Inr (steps s ! i)"
proof -
  from assms(2) have "0 < matchCount (steps s ! i) text"
    by (simp add: matchCount_pos)
  from findLoop_index [OF assms(1) this assms(3) assms(4)]
  show ?thesis by (simp add: findStepDef_def)
qed

theorem findStepDef_earliest_of_ties_witness:
  "findStepDef wildFirst ''a 5 number'' = Inr (steps wildFirst ! 0)
   \<and> matchCount (steps wildFirst ! 1) ''a 5 number'' = matchCount (steps wildFirst ! 0) ''a 5 number''
   \<and> source (expr (steps wildFirst ! 0)) = ''a (.*) number''
   \<and> source (expr (steps wildFirst ! 1)) = ''a 5 number''"
proof -
  have len: "length (steps wildFirst) = 2" by code_simp
  have c0: "matchCount (steps wildFirst ! 0) ''a 5 number'' = 1" by code_simp
  have c1: "matchCount (steps wildFirst ! 1) ''a 5 number'' = 1" by code_simp
  have h1: "0 < length (steps wildFirst)" using len by simp
  have h2: "MatchString (prog (expr (steps wildFirst ! 0))) ''a 5 number''"
    using c0 by (simp add: matchCount_pos)
  have h3: "\<forall>j<length (steps wildFirst).
      matchCount (steps wildFirst ! j) ''a 5 number'' \<le> matchCount (steps wildFirst ! 0) ''a 5 number''"
    using len c0 c1 by (auto simp: less_Suc_eq numeral_2_eq_2)
  have h4: "\<forall>j<0. matchCount (steps wildFirst ! j) ''a 5 number''
      \<noteq> matchCount (steps wildFirst ! 0) ''a 5 number''"
    by simp
  have s0: "source (expr (steps wildFirst ! 0)) = ''a (.*) number''" by code_simp
  have s1: "source (expr (steps wildFirst ! 1)) = ''a 5 number''" by code_simp
  from findStepDef_earliest_of_ties [OF h1 h2 h3 h4] c0 c1 s0 s1 show ?thesis by simp
qed

text \<open>
  Claim C1, as stated, fails: with \<open>a (.*) number\<close> registered before \<open>a 5 number\<close>, the
  step text \<open>a 5 number\<close> resolves to the wildcard pattern, not to the literal one (each
  pattern matches the text once, and the comparison \<open>l > found\<close> is strict).
\<close>

theorem findStepDef_literal_counterexample:
  "map_sum id (source \<circ> expr) (findStepDef wildFirst ''a 5 number'') = Inr ''a (.*) number''"
  by code_simp

text \<open>
  Claim C1, amended. \<open>findStepDef\<close> fails with the not-found error exactly when no
  registered pattern matches the text; otherwise it returns a registered definition whose
  pattern matches and whose number of non-overlapping matches no registered definition
  exceeds. The patterns \<open>a (.*) number\<close> and \<open>a 5 number\<close> each match \<open>a 5 number\<close> once,
  and the text resolves to whichever of the two was registered first.
\<close>

theorem findStepDef_greatest_count:
  "((findStepDef s text = Inl CannotFindStepDefinition)
      = (\<forall>sd\<in>set (steps s). \<not> MatchString (prog (expr sd)) text))
   \<and> (\<forall>sd. findStepDef s text = Inr sd \<longrightarrow>
          sd \<in> set (steps s) \<and> MatchString (prog (expr sd)) text
          \<and> (\<forall>sd'\<in>set (steps s). matchCount sd' text \<le> matchCount sd text))
   \<and> map_sum id (source \<circ> expr) (findStepDef wildFirst ''a 5 number'') = Inr ''a (.*) number''
   \<and> map_sum id (source \<circ> expr) (findStepDef literalFirst ''a 5 number'') = Inr ''a 5 number''
   \<and> map (\<lambda>sd. matchCount sd ''a 5 number'') (steps wildFirst) = [1, 1]"
proof (intro conjI)
  show "(findStepDef s text = Inl CannotFindStepDefinition)
      = (\<forall>sd\<in>set (steps s). \<not> MatchString (prog (expr sd)) text)"
    using findStepDef_cases [of s "text"] by (auto simp: matchCount_pos)
  show "\<forall>sd. findStepDef s text = Inr sd \<longrightarrow>
          sd \<in> set (steps s) \<and> MatchString (prog (expr sd)) text
          \<and> (\<forall>sd'\<in>set (steps s). matchCount sd' text \<le> matchCount sd text)"
    using findStepDef_cases [of s "text"] by (auto simp: matchCount_pos)
  show "map_sum id (source \<circ> expr) (findStepDef wildFirst ''a 5 number'') = Inr ''a (.*) number''"
    by code_simp
  show "map_sum id (source \<circ> expr) (findStepDef literalFirst ''a 5 number'') = Inr ''a 5 number''"
    by code_simp
  show "map (\<lambda>sd. matchCount sd ''a 5 number'') (steps wildFirst) = [1, 1]"
    by code_simp
qed

theorem findStepDef_greatest_count_witness:
  "findStepDef literalFirst ''a 5 number'' = Inr (hd (steps literalFirst))
   \<and> hd (steps literalFirst) \<in> set (steps literalFirst)
   \<and> MatchString (prog (expr (hd (steps literalFirst)))) ''a 5 number''
   \<and> list_all (\<lambda>sd'. matchCount sd' ''a 5 number'' \<le> matchCount (hd (steps literalFirst)) ''a 5 number'')
        (steps literalFirst)
   \<and> findStepDef freshSuite ''a 5 number'' = Inl CannotFindStepDefinition
   \<and> list_all (\<lambda>sd. \<not> MatchString (prog (expr sd)) ''a 5 number'') (steps freshSuite)"
proof -
  have e: "findStepDef literalFirst ''a 5 number'' = Inr (hd (steps literalFirst))"
    by code_simp
  have n: "findStepDef freshSuite ''a 5 number'' = Inl CannotFindStepDefinition"
    by code_simp
  from findStepDef_greatest_count [of literalFirst "''a 5 number''"] e
    findStepDef_greatest_count [of freshSuite "''a 5 number''"] n
  show ?thesis by (simp add: list_all_iff)
qed

section \<open>Properties of step registration\<close>

lemma addExprs_steps:
  "steps (addExprs cs h s) =
     steps s @ map (\<lambda>c. \<lparr>expr = projr (Compile c), f = h\<rparr>) (takeWhile (\<lambda>c. \<not> isl (Compile c)) cs)"
  by (induction cs arbitrary: s) (auto split: sum.splits)

lemma addExprs_errors:
  "\<forall>c\<in>set cs. Compile c \<noteq> Inl Unsupported \<Longrightarrow>
   hasStepErrors (addExprs cs h s) = (hasStepErrors s \<or> (\<exists>c\<in>set cs. isl (Compile c)))"
  by (induction cs arbitrary: s) (auto split: sum.splits)

lemma addExprs_outsideModel:
  "\<forall>c\<in>set cs. Compile c \<noteq> Inl Unsupported \<Longrightarrow>
   outsideModel (addExprs cs h s) = outsideModel s"
  by (induction cs arbitrary: s) (auto split: sum.splits)

lemma addExprs_parameterTypes: "parameterTypes (addExprs cs h s) = parameterTypes s"
  by (induction cs arbitrary: s) (auto split: sum.splits)

lemma applyParameterTypes_length:
  "length (tl (applyParameterTypes s ex)) =
     sum_list (map (\<lambda>kv. if Contains ex (fst kv) then length (snd kv) else 0) (parameterTypes s))"
proof -
  have inner: "(\<Sum>t\<leftarrow>ts. length (if Contains ex k then [Replace ex k t] else []))
      = (if Contains ex k then length ts else 0)" for k ts
    by (induction ts) auto
  show ?thesis
    by (simp add: applyParameterTypes_def length_concat comp_def inner)
qed

lemma applyParameterTypes_mem:
  assumes "(k, ts) \<in> set (parameterTypes s)" "Contains ex k" "t \<in> set ts"
  shows "Replace ex k t \<in> set (tl (applyParameterTypes s ex))"
  using assms by (force simp: applyParameterTypes_def)


lemma applyParameterTypes_hd: "hd (applyParameterTypes s ex) = ex"
  by (simp add: applyParameterTypes_def)

definition intHandler :: handler where
  "intHandler = Func 1 [KStepTest, KContext, KInt]"

definition stringHandler :: handler where
  "stringHandler = Func 2 [KStepTest, KContext, KString]"

text \<open>
  Claim C8, as stated, fails in its last part: a candidate need not compile. The pattern
  \<open>[{text}]\<close> contains the token \<open>{text}\<close> and compiles, but both candidates made from
  it (\<open>["([\d\w\-\s]+)"]\<close> and its single-quoted twin) have a closing parenthesis with no
  opening one, which is a syntax error of the library (no syntax that is left out is met).
  \<open>AddStep\<close>, given a valid handler, registers the original pattern only and marks the
  suite as having step errors.
\<close>

theorem AddStep_candidates_counterexample:
  "Contains ''[{text}]'' ''{text}''
   \<and> validateStepFunc stringHandler = None
   \<and> map Compile (tl (applyParameterTypes freshSuite ''[{text}]''))
        = [Inl UnexpectedParen, Inl UnexpectedParen]
   \<and> map (source \<circ> expr) (steps (AddStep ''[{text}]'' stringHandler freshSuite)) = [''[{text}]'']
   \<and> hasStepErrors (AddStep ''[{text}]'' stringHandler freshSuite)
   \<and> \<not> outsideModel (AddStep ''[{text}]'' stringHandler freshSuite)"
  by code_simp

text \<open>
  Claim C8, amended. The candidates of a pattern are the pattern itself followed by one
  candidate for every fragment of every registered token that the pattern contains, the
  candidate being the pattern with each occurrence of the token replaced by the fragment.
  Given a valid step function, \<open>AddStep\<close> registers, in this order and each bound to that
  function, the candidates before the first one that does not compile; the suite is
  marked as having step errors exactly when it was so marked or some candidate does not
  compile. Hence all candidates are registered when all of them compile.

  This is stated for the patterns all of whose candidates are written in the syntax that
  is modelled: for none of them \<open>Compile\<close> answers \<open>Unsupported\<close>. For these, \<open>Compile\<close>
  answers \<open>Inl\<close> exactly for a syntax error of the library, and the suite stays unmarked
  by \<open>outsideModel\<close>. Nothing is said about the other patterns.
\<close>

theorem AddStep_candidates:
  "hd (applyParameterTypes s ex) = ex
   \<and> length (tl (applyParameterTypes s ex))
       = (\<Sum>kv\<leftarrow>parameterTypes s. if Contains ex (fst kv) then length (snd kv) else 0)
   \<and> (\<forall>kv\<in>set (parameterTypes s). Contains ex (fst kv) \<longrightarrow>
         (\<forall>t\<in>set (snd kv). Replace ex (fst kv) t \<in> set (tl (applyParameterTypes s ex))))
   \<and> (validateStepFunc h = None
        \<and> (\<forall>c\<in>set (applyParameterTypes s ex). Compile c \<noteq> Inl Unsupported) \<longrightarrow>
         steps (AddStep ex h s)
           = steps s @ map (\<lambda>c. \<lparr>expr = projr (Compile c), f = h\<rparr>)
                          (takeWhile (\<lambda>c. \<not> isl (Compile c)) (applyParameterTypes s ex))
         \<and> hasStepErrors (AddStep ex h s)
           = (hasStepErrors s \<or> (\<exists>c\<in>set (applyParameterTypes s ex). isl (Compile c)))
         \<and> outsideModel (AddStep ex h s) = outsideModel s)"
proof (intro conjI impI ballI)
  show "hd (applyParameterTypes s ex) = ex"
    by (rule applyParameterTypes_hd)
  show "length (tl (applyParameterTypes s ex))
       = (\<Sum>kv\<leftarrow>parameterTypes s. if Contains ex (fst kv) then length (snd kv) else 0)"
    by (rule applyParameterTypes_length)
next
  fix kv t
  assume "kv \<in> set (parameterTypes s)" "Contains ex (fst kv)" "t \<in> set (snd kv)"
  then show "Replace ex (fst kv) t \<in> set (tl (applyParameterTypes s ex))"
    using applyParameterTypes_mem [of "fst kv" "snd kv" s ex t] by simp
next
  assume a: "validateStepFunc h = None
        \<and> (\<forall>c\<in>set (applyParameterTypes s ex). Compile c \<noteq> Inl Unsupported)"
  then have v: "validateStepFunc h = None"
    and sup: "\<forall>c\<in>set (applyParameterTypes s ex). Compile c \<noteq> Inl Unsupported"
    by simp_all
  from v show "steps (AddStep ex h s)
           = steps s @ map (\<lambda>c. \<lparr>expr = projr (Compile c), f = h\<rparr>)
                          (takeWhile (\<lambda>c. \<not> isl (Compile c)) (applyParameterTypes s ex))"
    by (simp add: AddStep_def addExprs_steps)
  from v show "hasStepErrors (AddStep ex h s)
           = (hasStepErrors s \<or> (\<exists>c\<in>set (applyParameterTypes s ex). isl (Compile c)))"
    by (simp add: AddStep_def addExprs_errors [OF sup])
  from v show "outsideModel (AddStep ex h s) = outsideModel s"
    by (simp add: AddStep_def addExprs_outsideModel [OF sup])
qed

theorem AddStep_candidates_witness:
  "map (source \<circ> expr) (steps (AddStep ''I have {int} cats'' intHandler freshSuite))
     = [''I have {int} cats'', ''I have ('' @ bs # ''d) cats'']
   \<and> map f (steps (AddStep ''I have {int} cats'' intHandler freshSuite)) = [intHandler, intHandler]
   \<and> \<not> hasStepErrors (AddStep ''I have {int} cats'' intHandler freshSuite)
   \<and> \<not> outsideModel (AddStep ''I have {int} cats'' intHandler freshSuite)
   \<and> Contains ''I have {int} cats'' ''{int}''
   \<and> Replace ''I have {int} cats'' ''{int}'' frag_int
       \<in> set (tl (applyParameterTypes freshSuite ''I have {int} cats''))"
proof -
  have v: "validateStepFunc intHandler = None" by code_simp
  have sup: "\<forall>c\<in>set (applyParameterTypes freshSuite ''I have {int} cats'').
      Compile c \<noteq> Inl Unsupported"
    by code_simp
  have o: "\<not> outsideModel freshSuite" by code_simp
  have c: "Contains ''I have {int} cats'' ''{int}''" by code_simp
  have m: "(''{int}'', [frag_int]) \<in> set (parameterTypes freshSuite)" by code_simp
  have r: "map (source \<circ> expr)
        (steps freshSuite @ map (\<lambda>c. \<lparr>expr = projr (Compile c), f = intHandler\<rparr>)
           (takeWhile (\<lambda>c. \<not> isl (Compile c)) (applyParameterTypes freshSuite ''I have {int} cats'')))
      = [''I have {int} cats'', ''I have ('' @ bs # ''d) cats'']"
    by code_simp
  have h: "map f
        (steps freshSuite @ map (\<lambda>c. \<lparr>expr = projr (Compile c), f = intHandler\<rparr>)
           (takeWhile (\<lambda>c. \<not> isl (Compile c)) (applyParameterTypes freshSuite ''I have {int} cats'')))
      = [intHandler, intHandler]"
    by code_simp
  have e: "\<not> (hasStepErrors freshSuite
        \<or> (\<exists>c\<in>set (applyParameterTypes freshSuite ''I have {int} cats''). isl (Compile c)))"
    by code_simp
  note T = AddStep_candidates [of freshSuite "''I have {int} cats''" intHandler]
  note R = T [THEN conjunct2, THEN conjunct2, THEN conjunct2, THEN mp, OF conjI [OF v sup]]
  have a1: "map (source \<circ> expr) (steps (AddStep ''I have {int} cats'' intHandler freshSuite))
     = [''I have {int} cats'', ''I have ('' @ bs # ''d) cats'']"
    unfolding R [THEN conjunct1] by (rule r)
  have a2: "map f (steps (AddStep ''I have {int} cats'' intHandler freshSuite))
     = [intHandler, intHandler]"
    unfolding R [THEN conjunct1] by (rule h)
  have a3: "\<not> hasStepErrors (AddStep ''I have {int} cats'' intHandler freshSuite)"
    unfolding R [THEN conjunct2, THEN conjunct1] by (rule e)
  have a5: "\<not> outsideModel (AddStep ''I have {int} cats'' intHandler freshSuite)"
    unfolding R [THEN conjunct2, THEN conjunct2] by (rule o)
  have a4: "Replace ''I have {int} cats'' ''{int}'' frag_int
       \<in> set (tl (applyParameterTypes freshSuite ''I have {int} cats''))"
    using T [THEN conjunct2, THEN conjunct2, THEN conjunct1, THEN bspec, OF m] c by simp
  show ?thesis by (intro conjI a1 a2 a3 a5 c a4)
qed

section \<open>Properties of argument coercion\<close>

lemma parseUintLoop_cases:
  "snd (parseUintLoop s n) = Some ErrSyntax \<Longrightarrow> fst (parseUintLoop s n) = 0"
  "snd (parseUintLoop s n) = Some ErrRange \<Longrightarrow> fst (parseUintLoop s n) = 2 ^ 64 - 1"
  by (induction s n rule: parseUintLoop.induct) (auto split: if_splits)

lemma Atoi_syntax_zero: "snd (Atoi p) = Some ErrSyntax \<Longrightarrow> fst (Atoi p) = 0"
  by (auto simp: Atoi_def ParseInt_def Let_def split: if_splits option.splits)

lemma Atoi_range_saturates:
  "snd (Atoi p) = Some ErrRange \<Longrightarrow> fst (Atoi p) = 2 ^ 63 - 1 \<or> fst (Atoi p) = - (2 ^ 63)"
  by (auto simp: Atoi_def ParseInt_def Let_def split: if_splits option.splits)

lemma run_calls_handler:
  assumes "f def = Func i ks" "callable ks" "length ks = length params + 2"
  shows "calls (run e def ctx params) = [HandlerCall i (coerce e params ks)]"
    and "tFailedOut (run e def ctx params)
           = sigFailed (signal (handlerBody e i (coerce e params ks) ctx))"
    and "returned (run e def ctx params)
           = sigReturned (signal (handlerBody e i (coerce e params ks) ctx))"
    and "tSkippedOut (run e def ctx params)
           = sigSkipped (signal (handlerBody e i (coerce e params ks) ctx))"
    and "ctxOut (run e def ctx params) = ctxAfter (handlerBody e i (coerce e params ks) ctx)"
  using assms by (simp_all add: run_def Let_def)

lemma strconvParseFloat_syntax_zero:
  "snd (strconvParseFloat s b) = Some ErrSyntax \<Longrightarrow> fst (strconvParseFloat s b) = FNum False 0 0"
  by (auto simp: strconvParseFloat_def atof_def Let_def split: option.splits prod.splits if_splits)

lemma strconvParseFloat_range_inf:
  "snd (strconvParseFloat s b) = Some ErrRange \<Longrightarrow>
   fst (strconvParseFloat s b) = FInf False \<or> fst (strconvParseFloat s b) = FInf True"
  by (auto simp: strconvParseFloat_def atof_def Let_def split: option.splits prod.splits if_splits)

text \<open>
  An environment in which every step function returns at once and marks nothing, every
  hook leaves the context as it is, and \<open>ParseFloat\<close> accepts no text; and the same
  environment with the library's \<open>ParseFloat\<close>.
\<close>

definition quietEnv :: "int env" where
  "quietEnv =
     \<lparr>ParseFloat = (\<lambda>s b. (0, Some ErrSyntax)),
      handlerBody = (\<lambda>i args c. \<lparr>ctxAfter = c, signal = Returned False\<rparr>),
      hookBody = (\<lambda>i c. c)\<rparr>"

definition strconvEnv :: "float env" where
  "strconvEnv =
     \<lparr>ParseFloat = strconvParseFloat,
      handlerBody = (\<lambda>i args c. \<lparr>ctxAfter = c, signal = Returned False\<rparr>),
      hookBody = (\<lambda>i c. c)\<rparr>"

definition weighsDef :: stepDef where
  "weighsDef =
     \<lparr>expr = projr (Compile ''it weighs (.*) kg''), f = Func 2 [KStepTest, KContext, KFloat32]\<rparr>"

text \<open>
  Claim C2, as stated, fails for a capture that is a numeral out of the range of its kind:
  the conversion reports an error, and the value handed to the step function is not zero.
  For \<open>int\<close> it is the largest \<open>int\<close>: the pattern \<open>I have (\d+) cats\<close> captures such a text
  from the step \<open>I have 9223372036854775808 cats\<close>. For \<open>float32\<close> and \<open>float64\<close> it is
  an infinity: \<open>1e39\<close> is too large for the bit size 32 that both kinds are parsed with.
\<close>

theorem paramType_range_counterexample:
  "snd (Atoi ''9223372036854775808'') = Some ErrRange
   \<and> paramType quietEnv ''9223372036854775808'' KInt = VInt 9223372036854775807
   \<and> map (\<lambda>v. paramType quietEnv v KInt)
        (tl (the (FindSubmatch (prog (projr (Compile (''I have ('' @ bs # ''d+) cats''))))
                    ''I have 9223372036854775808 cats'')))
      = [VInt 9223372036854775807]
   \<and> snd (strconvParseFloat ''1e39'' 32) = Some ErrRange
   \<and> paramType strconvEnv ''1e39'' KFloat32 = VFloat32 (FInf False)
   \<and> paramType strconvEnv ''1e39'' KFloat64 = VFloat64 (FInf False)"
  by code_simp

text \<open>
  Claim C2, amended. A capture that is not a numeral of the kind of the parameter (the
  syntax error of \<open>Atoi\<close>, or of \<open>ParseFloat\<close>) is delivered as the zero of that kind, for
  \<open>int\<close>, \<open>float32\<close> and \<open>float64\<close> alike. A numeral out of range (the range error) is
  delivered as the nearest end of the range: the largest or the smallest \<open>int\<close>, and for
  the two float kinds, both parsed with bit size 32, the infinity of its sign. In no case
  does the conversion mark the step: when the step function's signature fits the
  captures, it is called once with the converted values, and if the function itself
  returns without marking a failure the step is not marked failed. The two statements on
  the float kinds are made for a run whose \<open>ParseFloat\<close> is the library's.
\<close>

theorem paramType_conversion_failure:
  "(snd (Atoi p) = Some ErrSyntax \<longrightarrow> paramType e p KInt = VInt 0)
   \<and> (snd (Atoi p) = Some ErrRange \<longrightarrow>
         paramType e p KInt = VInt (2 ^ 63 - 1) \<or> paramType e p KInt = VInt (- (2 ^ 63)))
   \<and> (ParseFloat e = strconvParseFloat \<and> snd (strconvParseFloat p 32) = Some ErrSyntax \<longrightarrow>
         paramType e p KFloat32 = VFloat32 (FNum False 0 0)
         \<and> paramType e p KFloat64 = VFloat64 (FNum False 0 0))
   \<and> (ParseFloat e = strconvParseFloat \<and> snd (strconvParseFloat p 32) = Some ErrRange \<longrightarrow>
         (paramType e p KFloat32 = VFloat32 (FInf False)
          \<and> paramType e p KFloat64 = VFloat64 (FInf False))
         \<or> (paramType e p KFloat32 = VFloat32 (FInf True)
             \<and> paramType e p KFloat64 = VFloat64 (FInf True)))
   \<and> (f def = Func i ks \<and> callable ks \<and> length ks = length params + 2
        \<and> (\<forall>args c. signal (handlerBody e i args c) = Returned False) \<longrightarrow>
         calls (run e def ctx params) = [HandlerCall i (coerce e params ks)]
         \<and> coerce e params ks = map (\<lambda>(v, k). paramType e v k) (zip params (drop 2 ks))
         \<and> \<not> tFailedOut (run e def ctx params) \<and> returned (run e def ctx params))"
proof -
  have c1: "snd (Atoi p) = Some ErrSyntax \<longrightarrow> paramType e p KInt = VInt 0"
    by (simp add: paramType_def Atoi_syntax_zero)
  have c2: "snd (Atoi p) = Some ErrRange \<longrightarrow>
         paramType e p KInt = VInt (2 ^ 63 - 1) \<or> paramType e p KInt = VInt (- (2 ^ 63))"
    using Atoi_range_saturates [of p] by (auto simp: paramType_def)
  have c3: "ParseFloat e = strconvParseFloat \<and> snd (strconvParseFloat p 32) = Some ErrSyntax \<longrightarrow>
         paramType e p KFloat32 = VFloat32 (FNum False 0 0)
         \<and> paramType e p KFloat64 = VFloat64 (FNum False 0 0)"
    by (simp add: paramType_def strconvParseFloat_syntax_zero)
  have c4: "ParseFloat e = strconvParseFloat \<and> snd (strconvParseFloat p 32) = Some ErrRange \<longrightarrow>
         (paramType e p KFloat32 = VFloat32 (FInf False)
          \<and> paramType e p KFloat64 = VFloat64 (FInf False))
         \<or> (paramType e p KFloat32 = VFloat32 (FInf True)
             \<and> paramType e p KFloat64 = VFloat64 (FInf True))"
    using strconvParseFloat_range_inf [of p 32] by (auto simp: paramType_def)
  have c5: "f def = Func i ks \<and> callable ks \<and> length ks = length params + 2
        \<and> (\<forall>args c. signal (handlerBody e i args c) = Returned False) \<longrightarrow>
         calls (run e def ctx params) = [HandlerCall i (coerce e params ks)]
         \<and> coerce e params ks = map (\<lambda>(v, k). paramType e v k) (zip params (drop 2 ks))
         \<and> \<not> tFailedOut (run e def ctx params) \<and> returned (run e def ctx params)"
  proof (intro impI conjI)
    assume h: "f def = Func i ks \<and> callable ks \<and> length ks = length params + 2
        \<and> (\<forall>args c. signal (handlerBody e i args c) = Returned False)"
    then have a: "f def = Func i ks" "callable ks" "length ks = length params + 2" by simp_all
    from run_calls_handler(1) [OF a]
    show "calls (run e def ctx params) = [HandlerCall i (coerce e params ks)]" .
    show "coerce e params ks = map (\<lambda>(v, k). paramType e v k) (zip params (drop 2 ks))"
      by (simp add: coerce_def)
    from h have q: "signal (handlerBody e i args c) = Returned False" for args c
      by simp
    show "\<not> tFailedOut (run e def ctx params)"
      unfolding run_calls_handler(2) [OF a] by (simp add: q)
    show "returned (run e def ctx params)"
      unfolding run_calls_handler(3) [OF a] by (simp add: q)
  qed
  show ?thesis by (intro conjI c1 c2 c3 c4 c5)
qed

theorem paramType_conversion_failure_witness:
  "snd (Atoi ''many'') = Some ErrSyntax
   \<and> paramType strconvEnv ''many'' KInt = VInt 0
   \<and> snd (Atoi ''-9223372036854775809'') = Some ErrRange
   \<and> paramType strconvEnv ''-9223372036854775809'' KInt = VInt (- 9223372036854775808)
   \<and> snd (strconvParseFloat ''many'' 32) = Some ErrSyntax
   \<and> paramType strconvEnv ''many'' KFloat32 = VFloat32 (FNum False 0 0)
   \<and> paramType strconvEnv ''many'' KFloat64 = VFloat64 (FNum False 0 0)
   \<and> snd (strconvParseFloat ''-1e39'' 32) = Some ErrRange
   \<and> paramType strconvEnv ''-1e39'' KFloat32 = VFloat32 (FInf True)
   \<and> paramType strconvEnv ''-1e39'' KFloat64 = VFloat64 (FInf True)
   \<and> paramType strconvEnv ''2.5'' KFloat32 = VFloat32 (FNum False 5 (- 1))
   \<and> FindSubmatch (prog (expr weighsDef)) ''it weighs many kg'' = Some [''it weighs many kg'', ''many'']
   \<and> calls (run strconvEnv weighsDef Map.empty [''many'']) = [HandlerCall 2 [VFloat32 (FNum False 0 0)]]
   \<and> \<not> tFailedOut (run strconvEnv weighsDef Map.empty [''many''])
   \<and> returned (run strconvEnv weighsDef Map.empty [''many''])"
proof -
  note T = paramType_conversion_failure [of "''many''" strconvEnv weighsDef 2
      "[KStepTest, KContext, KFloat32]" "[''many'']" Map.empty]
  note U = paramType_conversion_failure [of "''-9223372036854775809''" strconvEnv]
  note V = paramType_conversion_failure [of "''-1e39''" strconvEnv]
  have lib: "ParseFloat strconvEnv = strconvParseFloat" by (simp add: strconvEnv_def)
  have s: "snd (Atoi ''many'') = Some ErrSyntax" by code_simp
  have r: "snd (Atoi ''-9223372036854775809'') = Some ErrRange" by code_simp
  have fs: "snd (strconvParseFloat ''many'' 32) = Some ErrSyntax" by code_simp
  have fr: "snd (strconvParseFloat ''-1e39'' 32) = Some ErrRange" by code_simp
  have np: "paramType strconvEnv ''-9223372036854775809'' KInt \<noteq> VInt (2 ^ 63 - 1)"
    by code_simp
  have nf32: "paramType strconvEnv ''-1e39'' KFloat32 \<noteq> VFloat32 (FInf False)" by code_simp
  have ok: "paramType strconvEnv ''2.5'' KFloat32 = VFloat32 (FNum False 5 (- 1))" by code_simp
  have m: "FindSubmatch (prog (expr weighsDef)) ''it weighs many kg''
      = Some [''it weighs many kg'', ''many'']"
    by code_simp
  have h: "f weighsDef = Func 2 [KStepTest, KContext, KFloat32]
      \<and> callable [KStepTest, KContext, KFloat32]
      \<and> length [KStepTest, KContext, KFloat32] = length [''many''] + 2
      \<and> (\<forall>args c. signal (handlerBody strconvEnv 2 args c) = Returned False)"
    by (simp add: weighsDef_def callable_def strconvEnv_def)
  have z: "paramType strconvEnv ''many'' KInt = VInt 0"
    using T [THEN conjunct1, THEN mp, OF s] .
  have rv: "paramType strconvEnv ''-9223372036854775809'' KInt = VInt (- 9223372036854775808)"
    using U [THEN conjunct2, THEN conjunct1, THEN mp, OF r] np by simp
  have fz: "paramType strconvEnv ''many'' KFloat32 = VFloat32 (FNum False 0 0)"
    and fz64: "paramType strconvEnv ''many'' KFloat64 = VFloat64 (FNum False 0 0)"
    using T [THEN conjunct2, THEN conjunct2, THEN conjunct1, THEN mp, OF conjI [OF lib fs]]
    by simp_all
  have fi: "paramType strconvEnv ''-1e39'' KFloat32 = VFloat32 (FInf True)"
    and fi64: "paramType strconvEnv ''-1e39'' KFloat64 = VFloat64 (FInf True)"
    using V [THEN conjunct2, THEN conjunct2, THEN conjunct2, THEN conjunct1, THEN mp,
             OF conjI [OF lib fr]] nf32
    by auto
  have c: "calls (run strconvEnv weighsDef Map.empty [''many''])
      = [HandlerCall 2 (coerce strconvEnv [''many''] [KStepTest, KContext, KFloat32])]"
    and cc: "coerce strconvEnv [''many''] [KStepTest, KContext, KFloat32]
      = map (\<lambda>(v, k). paramType strconvEnv v k)
           (zip [''many''] (drop 2 [KStepTest, KContext, KFloat32]))"
    and nf: "\<not> tFailedOut (run strconvEnv weighsDef Map.empty [''many''])"
    and rt: "returned (run strconvEnv weighsDef Map.empty [''many''])"
    using T [THEN conjunct2, THEN conjunct2, THEN conjunct2, THEN conjunct2, THEN mp, OF h]
    by simp_all
  from c cc fz have c': "calls (run strconvEnv weighsDef Map.empty [''many''])
      = [HandlerCall 2 [VFloat32 (FNum False 0 0)]]"
    by simp
  show ?thesis by (intro conjI s z r rv fs fz fz64 fr fi fi64 ok m c' nf rt)
qed

section \<open>Properties of outline expansion\<close>

definition sumStep :: GStep where
  "sumStep = \<lparr>stLine = 3, stKeyword = ''When '', stText = ''add <a> and <b>'', stArgument = None\<rparr>"

definition addExamples :: Examples where
  "addExamples = \<lparr>TableHeader = [''a'', ''b''], TableBody = [[''1'', ''2''], [''3'', ''4'']]\<rparr>"

definition sumSuite :: Suite where
  "sumSuite = AddStep (''add ('' @ bs # ''d+) and ('' @ bs # ''d+)'')
                (Func 3 [KStepTest, KContext, KInt, KInt]) freshSuite"

lemma AddStep_steps_prefix: "\<exists>extra. steps (AddStep ex h s) = steps s @ extra"
  by (cases "validateStepFunc h") (simp_all add: AddStep_def addExprs_steps)

lemma findStepDef_AddStep:
  assumes "\<exists>x\<in>set (steps s). MatchString (prog (expr x)) text"
  shows "\<exists>x\<in>set (steps (AddStep ex h s)). MatchString (prog (expr x)) text"
proof -
  from AddStep_steps_prefix obtain extra where "steps (AddStep ex h s) = steps s @ extra" by blast
  with assms show ?thesis by auto
qed

definition addPattern :: string where
  "addPattern = ''add '' @ frag_digits @ '' and '' @ frag_digits"

lemma stepFromExample_row1:
  "stepFromExample e ''add <a> and <b>'' ''add <a> and <b>'' [''1'', ''2''] [''<a>'', ''<b>'']
     = Inr (''add 1 and 2'', addPattern)"
  by code_simp

lemma stepFromExample_row2:
  "stepFromExample e ''add <a> and <b>'' ''add <a> and <b>'' [''3'', ''4''] [''<a>'', ''<b>'']
     = Inr (''add 3 and 4'', addPattern)"
  by code_simp

lemma rowsLoop_two_rows:
  assumes t: "stText src = ''add <a> and <b>''"
    and m1: "\<exists>x\<in>set (steps s). MatchString (prog (expr x)) ''add 1 and 2''"
    and m2: "\<exists>x\<in>set (steps s). MatchString (prog (expr x)) ''add 3 and 4''"
  shows "\<exists>s'. rowsLoop e src [''<a>'', ''<b>''] [[''1'', ''2''], [''3'', ''4'']] s
            = Inr (s', [src\<lparr>stText := ''add 1 and 2''\<rparr>, src\<lparr>stText := ''add 3 and 4''\<rparr>])
          \<and> (\<exists>x\<in>set (steps s'). MatchString (prog (expr x)) ''add 1 and 2'')
          \<and> (\<exists>x\<in>set (steps s'). MatchString (prog (expr x)) ''add 3 and 4'')"
proof -
  let ?p = addPattern
  from m1 obtain d1 where d1: "findStepDef s ''add 1 and 2'' = Inr d1"
    using findStepDef_Inr_iff by blast
  let ?s1 = "AddStep ?p (f d1) s"
  have "\<exists>x\<in>set (steps ?s1). MatchString (prog (expr x)) ''add 3 and 4''"
    using m2 by (rule findStepDef_AddStep)
  then obtain d2 where d2: "findStepDef ?s1 ''add 3 and 4'' = Inr d2"
    using findStepDef_Inr_iff by blast
  let ?s2 = "AddStep ?p (f d2) ?s1"
  have r: "rowsLoop e src [''<a>'', ''<b>''] [[''1'', ''2''], [''3'', ''4'']] s
            = Inr (?s2, [src\<lparr>stText := ''add 1 and 2''\<rparr>, src\<lparr>stText := ''add 3 and 4''\<rparr>])"
    by (simp add: t stepFromExample_row1 stepFromExample_row2 d1 d2
        del: stepFromExample.simps)
  have k1: "\<exists>x\<in>set (steps ?s2). MatchString (prog (expr x)) ''add 1 and 2''"
    using m1 by (intro findStepDef_AddStep)
  have k2: "\<exists>x\<in>set (steps ?s2). MatchString (prog (expr x)) ''add 3 and 4''"
    using m2 by (intro findStepDef_AddStep)
  from r k1 k2 show ?thesis by blast
qed

lemma examplesLoop_empty:
  "\<forall>x\<in>set exs. TableBody x = [] \<Longrightarrow> examplesLoop e st exs s = Inr (s, [])"
  by (induction exs) (simp_all add: stepsFromExamples_def)

lemma stepsListLoop_empty:
  "\<forall>x\<in>set exs. TableBody x = [] \<Longrightarrow>
     stepsListLoop e stps exs s = Inr (s, replicate (length stps) [])"
  by (induction stps) (simp_all add: examplesLoop_empty)

lemma pickExamples_empty:
  "\<forall>x\<in>set exs. TableBody x = [] \<Longrightarrow> pickExamples sl exs = Inr []"
  by (induction exs) simp_all

lemma getOutlineStep_empty:
  "\<forall>x\<in>set exs. TableBody x = [] \<Longrightarrow> getOutlineStep e s stps exs = Inr (s, [])"
  by (simp add: getOutlineStep_def stepsListLoop_empty pickExamples_empty)

text \<open>
  Claim C3. An outline with the example header \<open>[a, b]\<close> and the two body rows \<open>[1, 2]\<close>
  and \<open>[3, 4]\<close>, applied to the single source step \<open>add <a> and <b>\<close>, expands to exactly
  the two steps \<open>add 1 and 2\<close> and \<open>add 3 and 4\<close>, in this order (each a copy of the source
  step with the new text), provided some registered pattern matches both texts; each of
  the two texts resolves to a step definition in the suite as the expansion leaves it.
  Examples without body rows expand to no step, without error, and leave the suite as it
  was.
\<close>

theorem getOutlineStep_example_table:
  assumes t: "stText src = ''add <a> and <b>''"
    and h: "TableHeader ex = [''a'', ''b'']" and b: "TableBody ex = [[''1'', ''2''], [''3'', ''4'']]"
    and m1: "\<exists>x\<in>set (steps s). MatchString (prog (expr x)) ''add 1 and 2''"
    and m2: "\<exists>x\<in>set (steps s). MatchString (prog (expr x)) ''add 3 and 4''"
  shows "(\<exists>s'. getOutlineStep e s [src] [ex]
            = Inr (s', [src\<lparr>stText := ''add 1 and 2''\<rparr>, src\<lparr>stText := ''add 3 and 4''\<rparr>])
          \<and> (\<exists>d. findStepDef s' ''add 1 and 2'' = Inr d)
          \<and> (\<exists>d. findStepDef s' ''add 3 and 4'' = Inr d))
       \<and> ((\<forall>x\<in>set exs. TableBody x = []) \<longrightarrow> getOutlineStep e s stps exs = Inr (s, []))"
proof (intro conjI impI)
  from rowsLoop_two_rows [OF t m1 m2, of e] obtain s' where
    r: "rowsLoop e src [''<a>'', ''<b>''] [[''1'', ''2''], [''3'', ''4'']] s
            = Inr (s', [src\<lparr>stText := ''add 1 and 2''\<rparr>, src\<lparr>stText := ''add 3 and 4''\<rparr>])"
    and k1: "\<exists>x\<in>set (steps s'). MatchString (prog (expr x)) ''add 1 and 2''"
    and k2: "\<exists>x\<in>set (steps s'). MatchString (prog (expr x)) ''add 3 and 4''"
    by blast
  have u: "[0..<length (TableBody ex)] = [0, 1]" by (simp add: b upt_rec)
  have "getOutlineStep e s [src] [ex]
            = Inr (s', [src\<lparr>stText := ''add 1 and 2''\<rparr>, src\<lparr>stText := ''add 3 and 4''\<rparr>])"
    by (simp add: getOutlineStep_def stepsFromExamples_def h b r u del: rowsLoop.simps)
  with k1 k2 show "\<exists>s'. getOutlineStep e s [src] [ex]
            = Inr (s', [src\<lparr>stText := ''add 1 and 2''\<rparr>, src\<lparr>stText := ''add 3 and 4''\<rparr>])
          \<and> (\<exists>d. findStepDef s' ''add 1 and 2'' = Inr d)
          \<and> (\<exists>d. findStepDef s' ''add 3 and 4'' = Inr d)"
    using findStepDef_Inr_iff by blast
next
  assume "\<forall>x\<in>set exs. TableBody x = []"
  then show "getOutlineStep e s stps exs = Inr (s, [])"
    by (rule getOutlineStep_empty)
qed

theorem getOutlineStep_example_table_witness:
  "map_sum id snd (getOutlineStep quietEnv sumSuite [sumStep] [addExamples])
     = Inr [sumStep\<lparr>stText := ''add 1 and 2''\<rparr>, sumStep\<lparr>stText := ''add 3 and 4''\<rparr>]
   \<and> getOutlineStep quietEnv sumSuite [sumStep] [addExamples\<lparr>TableBody := []\<rparr>] = Inr (sumSuite, [])
   \<and> map (source \<circ> expr) (steps sumSuite) = [addPattern]"
proof -
  have t: "stText sumStep = ''add <a> and <b>''" by (simp add: sumStep_def)
  have h: "TableHeader addExamples = [''a'', ''b'']" by (simp add: addExamples_def)
  have b: "TableBody addExamples = [[''1'', ''2''], [''3'', ''4'']]" by (simp add: addExamples_def)
  have m1: "\<exists>x\<in>set (steps sumSuite). MatchString (prog (expr x)) ''add 1 and 2''" by code_simp
  have m2: "\<exists>x\<in>set (steps sumSuite). MatchString (prog (expr x)) ''add 3 and 4''" by code_simp
  have p: "map (source \<circ> expr) (steps sumSuite) = [addPattern]" by code_simp
  note T = getOutlineStep_example_table [OF t h b m1 m2,
      of quietEnv "[addExamples\<lparr>TableBody := []\<rparr>]" "[sumStep]"]
  from T [THEN conjunct1] obtain s' where
    "getOutlineStep quietEnv sumSuite [sumStep] [addExamples]
       = Inr (s', [sumStep\<lparr>stText := ''add 1 and 2''\<rparr>, sumStep\<lparr>stText := ''add 3 and 4''\<rparr>])"
    by (elim exE conjE)
  then have a1: "map_sum id snd (getOutlineStep quietEnv sumSuite [sumStep] [addExamples])
     = Inr [sumStep\<lparr>stText := ''add 1 and 2''\<rparr>, sumStep\<lparr>stText := ''add 3 and 4''\<rparr>]"
    by simp
  have a2: "getOutlineStep quietEnv sumSuite [sumStep] [addExamples\<lparr>TableBody := []\<rparr>]
      = Inr (sumSuite, [])"
    using T [THEN conjunct2] by simp
  show ?thesis by (intro conjI a1 a2 p)
qed

section \<open>Properties of the execution context\<close>

lemma fold_ctxSet_other:
  assumes "c \<noteq> r" "r < length h"
  shows "length (fold (\<lambda>kv. ctxSet c (fst kv) (snd kv)) ops h) = length h
    \<and> fold (\<lambda>kv. ctxSet c (fst kv) (snd kv)) ops h ! r = h ! r"
  using assms
proof (induction ops arbitrary: h)
  case Nil
  then show ?case by simp
next
  case (Cons kv ops)
  have "length (ctxSet c (fst kv) (snd kv) h) = length h"
    and "ctxSet c (fst kv) (snd kv) h ! r = h ! r"
    using Cons.prems by (simp_all add: ctxSet_def)
  with Cons.IH [of "ctxSet c (fst kv) (snd kv) h"] Cons.prems show ?case by simp
qed

text \<open>
  Claim C9. Cloning a context and then mutating the clone, by any sequence of \<open>Set\<close>
  calls (new keys or overwritten ones), leaves every key and value of the original
  context as it was: the clone is a different handle with its own backing map, which
  starts with the entries of the original and on which the mutations take effect.
\<close>

theorem Clone_independent:
  assumes "ctx < length h"
  shows "fst (Clone ctx h) \<noteq> ctx
    \<and> (\<forall>k. ctxGet (fst (Clone ctx h)) k (snd (Clone ctx h)) = ctxGet ctx k h)
    \<and> (\<forall>k. ctxGet ctx k (snd (Clone ctx h)) = ctxGet ctx k h)
    \<and> (\<forall>ops k. ctxGet ctx k
          (fold (\<lambda>kv. ctxSet (fst (Clone ctx h)) (fst kv) (snd kv)) ops (snd (Clone ctx h)))
         = ctxGet ctx k h)
    \<and> (\<forall>k v. ctxGet (fst (Clone ctx h)) k (ctxSet (fst (Clone ctx h)) k v (snd (Clone ctx h)))
         = Some v)"
proof (intro conjI allI)
  show "fst (Clone ctx h) \<noteq> ctx" using assms by (simp add: Clone_def)
  show "ctxGet (fst (Clone ctx h)) k (snd (Clone ctx h)) = ctxGet ctx k h" for k
    by (simp add: Clone_def ctxGet_def)
  show "ctxGet ctx k (snd (Clone ctx h)) = ctxGet ctx k h" for k
    using assms by (simp add: Clone_def ctxGet_def nth_append)
  show "ctxGet ctx k
          (fold (\<lambda>kv. ctxSet (fst (Clone ctx h)) (fst kv) (snd kv)) ops (snd (Clone ctx h)))
         = ctxGet ctx k h" for ops k
  proof -
    have "fold (\<lambda>kv. ctxSet (length h) (fst kv) (snd kv)) ops (h @ [h ! ctx]) ! ctx
        = (h @ [h ! ctx]) ! ctx"
      using fold_ctxSet_other [of "length h" ctx "h @ [h ! ctx]" ops] assms by simp
    then show ?thesis using assms by (simp add: Clone_def ctxGet_def nth_append)
  qed
  show "ctxGet (fst (Clone ctx h)) k (ctxSet (fst (Clone ctx h)) k v (snd (Clone ctx h))) = Some v"
    for k v
    by (simp add: Clone_def ctxGet_def ctxSet_def)
qed

definition annStore :: store where
  "annStore = [Map.empty(''user'' \<mapsto> ''ann'')]"

theorem Clone_independent_witness:
  "ctxGet 0 ''user'' (ctxSet (fst (Clone 0 annStore)) ''user'' ''bob'' (snd (Clone 0 annStore)))
     = Some ''ann''
   \<and> ctxGet (fst (Clone 0 annStore)) ''user''
        (ctxSet (fst (Clone 0 annStore)) ''user'' ''bob'' (snd (Clone 0 annStore))) = Some ''bob''
   \<and> ctxGet (fst (Clone 0 annStore)) ''user'' (snd (Clone 0 annStore)) = Some ''ann''"
proof -
  have l: "0 < length annStore" by (simp add: annStore_def)
  have g: "ctxGet 0 ''user'' annStore = Some ''ann''" by (simp add: annStore_def ctxGet_def)
  note T = Clone_independent [OF l]
  have a1: "ctxGet 0 ''user''
      (fold (\<lambda>kv. ctxSet (fst (Clone 0 annStore)) (fst kv) (snd kv)) [(''user'', ''bob'')]
         (snd (Clone 0 annStore))) = ctxGet 0 ''user'' annStore"
    using T [THEN conjunct2, THEN conjunct2, THEN conjunct2, THEN conjunct1] by blast
  have a2: "ctxGet (fst (Clone 0 annStore)) ''user''
        (ctxSet (fst (Clone 0 annStore)) ''user'' ''bob'' (snd (Clone 0 annStore))) = Some ''bob''"
    using T [THEN conjunct2, THEN conjunct2, THEN conjunct2, THEN conjunct2] by blast
  have a3: "ctxGet (fst (Clone 0 annStore)) ''user'' (snd (Clone 0 annStore)) = Some ''ann''"
    using T [THEN conjunct2, THEN conjunct1] g by simp
  from a1 g a2 a3 show ?thesis by simp
qed

section \<open>Properties of execution\<close>

lemma contains_set: "contains a x = (x \<in> set a)"
  by (induction a) auto

lemma skipScenario_iff:
  "skipScenario s tgs =
     ((\<exists>t\<in>set tgs. tgName t \<in> set (ignoreTags (options s)))
      \<or> (tags (options s) \<noteq> [] \<and> \<not> (\<exists>t\<in>set tgs. tgName t \<in> set (tags (options s)))))"
  by (auto simp: skipScenario_def contains_set list_ex_iff)


lemma callHooks_suite: "suite (callHooks mk hs e r w) = suite w"
  by (induction hs arbitrary: w) simp_all

lemma callHooks_failedScenarios: "failedScenarios (callHooks mk hs e r w) = failedScenarios w"
  by (induction hs arbitrary: w) simp_all

lemma callHooks_length: "length (heap (callHooks mk hs e r w)) = length (heap w)"
  by (induction hs arbitrary: w) simp_all

lemma foldl_Scenario_AddStep_eq:
  "foldl (\<lambda>r st. Scenario_AddStep r (stKeyword st) (stText st) (stLine st) [] status) r0 xs
     = r0\<lparr>rcSteps := rcSteps r0 @ map (\<lambda>st. \<lparr>rsStepResult = \<lparr>ErrorMsg = [], RunStatus = status, ExecutionTime = 0\<rparr>,
            rsMatch = [], rsKeyword = stKeyword st, rsName = stText st, rsLine = stLine st\<rparr>) xs\<rparr>"
  by (induction xs arbitrary: r0) (simp_all add: Scenario_AddStep_def)

lemma findStepDef_FindSubmatch:
  assumes "findStepDef s t = Inr def"
  shows "\<exists>ms. FindSubmatch (prog (expr def)) t = Some ms"
proof -
  from findStepDef_cases [of s t] assms have "0 < matchCount def t" by auto
  then have "MatchString (prog (expr def)) t" by (simp add: matchCount_pos)
  then show ?thesis by (auto simp: MatchString_def FindSubmatch_def)
qed

lemma runStep_unresolved:
  "findStepDef (suite w) (stText step) = Inl err \<Longrightarrow> runStep e r step w = (w, Unresolved)"
  by (simp add: runStep_def)

lemma runStep_resolved:
  assumes "findStepDef (suite w) (stText step) = Inr def"
  shows "\<exists>w' st fl. runStep e r step w = (w', StepDone st fl) \<and> suite w' = suite w
           \<and> failedScenarios w' = failedScenarios w"
proof -
  obtain w' x where p: "runStep e r step w = (w', x)" by (cases "runStep e r step w")
  from p assms have "x \<noteq> Unresolved" "suite w' = suite w" "failedScenarios w' = failedScenarios w"
    by (auto simp: runStep_def Let_def callHooks_suite callHooks_failedScenarios)
  with p show ?thesis by (cases x) auto
qed

lemma runSteps_completes:
  assumes "\<forall>p\<in>set pre. \<exists>d. findStepDef (suite w) (stText p) = Inr d"
  shows "\<exists>w1 fs1 fl. runSteps e r pre fs w = (w1, Completed fs1, fl) \<and> suite w1 = suite w
           \<and> failedScenarios w1 = failedScenarios w"
  using assms
proof (induction pre arbitrary: fs w)
  case Nil
  show ?case by (intro exI [of _ w] exI [of _ fs] exI [of _ False]) simp
next
  case (Cons p pre)
  from Cons.prems obtain d where "findStepDef (suite w) (stText p) = Inr d" by auto
  from runStep_resolved [OF this, of e r] obtain w' st fl where
    rs: "runStep e r p w = (w', StepDone st fl)" and su: "suite w' = suite w"
    and fa: "failedScenarios w' = failedScenarios w"
    by blast
  from Cons.prems su have "\<forall>p\<in>set pre. \<exists>d. findStepDef (suite w') (stText p) = Inr d" by simp
  from Cons.IH [OF this, of "AddStepObj fs st"] obtain w1 fs1 fl1 where
    "runSteps e r pre (AddStepObj fs st) w' = (w1, Completed fs1, fl1)" "suite w1 = suite w'"
    "failedScenarios w1 = failedScenarios w'"
    by blast
  with rs su fa show ?case by simp
qed

lemma runSteps_stops:
  assumes c: "runSteps e r pre fs w = (w1, Completed fs1, fl)"
    and u: "findStepDef (suite w1) (stText step) = Inl err"
  shows "runSteps e r (pre @ step # post) fs w = (w1, Exiting, True)"
  using c
proof (induction pre arbitrary: fs w fl)
  case Nil
  with u show ?case by (simp add: runStep_unresolved)
next
  case (Cons p pre)
  show ?case
  proof (cases "runStep e r p w")
    case (Pair w' x)
    show ?thesis
    proof (cases x)
      case Unresolved
      with Pair Cons.prems show ?thesis by simp
    next
      case (StepDone st f1)
      with Pair Cons.prems obtain fl' where
        "runSteps e r pre (AddStepObj fs st) w' = (w1, Completed fs1, fl')"
        by (auto split: prod.splits)
      from Cons.IH [OF this] Pair StepDone show ?thesis by simp
    qed
  qed
qed

text \<open>The background phase of \<open>runScenario\<close>, with no background read as no steps.\<close>

definition backgroundSteps :: "Background option \<Rightarrow> GStep list" where
  "backgroundSteps bkg = (case bkg of None \<Rightarrow> [] | Some bg \<Rightarrow> bgSteps bg)"

lemma runScenario_unresolved:
  assumes ex: "scExamples sc = []" and st: "scSteps sc = pre @ step # post"
    and res: "\<forall>p\<in>set (backgroundSteps bkg @ pre). \<exists>d. findStepDef (suite w) (stText p) = Inr d"
    and un: "findStepDef (suite w) (stText step) = Inl err"
  shows "\<exists>w'. runScenario e r sc bkg w = Inr (w', FormatScenario sc, True)
           \<and> (\<exists>fs fl. runScenario e r (sc\<lparr>scSteps := pre\<rparr>) bkg w = Inr (w', fs, fl))
           \<and> suite w' = suite w \<and> failedScenarios w' = failedScenarios w"
proof -
  let ?w1 = "callHooks BeforeScenarioHook (beforeScenario (options (suite w))) e r w"
  let ?after = "callHooks AfterScenarioHook (afterScenario (options (suite w))) e r"
  have s1: "suite ?w1 = suite w" and f1: "failedScenarios ?w1 = failedScenarios w"
    by (simp_all add: callHooks_suite callHooks_failedScenarios)
  have bgeq: "(case bkg of None \<Rightarrow> (?w1, Completed emptyScenario, False)
                | Some bg \<Rightarrow> runSteps e r (bgSteps bg) emptyScenario ?w1)
      = runSteps e r (backgroundSteps bkg) emptyScenario ?w1"
    by (simp add: backgroundSteps_def split: option.splits)
  from res s1 have "\<forall>p\<in>set (backgroundSteps bkg). \<exists>d. findStepDef (suite ?w1) (stText p) = Inr d"
    by simp
  from runSteps_completes [OF this, of e r emptyScenario] obtain w2 dropped fl where
    b: "runSteps e r (backgroundSteps bkg) emptyScenario ?w1 = (w2, Completed dropped, fl)"
    and s2: "suite w2 = suite ?w1" and f2: "failedScenarios w2 = failedScenarios ?w1"
    by blast
  let ?c = "fst (Clone r (heap w2))"
  let ?w3 = "w2\<lparr>heap := snd (Clone r (heap w2))\<rparr>"
  have s3: "suite ?w3 = suite w" using s2 s1 by simp
  from res s3 have "\<forall>p\<in>set pre. \<exists>d. findStepDef (suite ?w3) (stText p) = Inr d" by simp
  from runSteps_completes [OF this, of e ?c "FormatScenario sc"] obtain w4 fs1 fl1 where
    p: "runSteps e ?c pre (FormatScenario sc) ?w3 = (w4, Completed fs1, fl1)"
    and s4: "suite w4 = suite ?w3" and f4: "failedScenarios w4 = failedScenarios ?w3"
    by blast
  from un s4 s3 have "findStepDef (suite w4) (stText step) = Inl err" by simp
  from runSteps_stops [OF p this, of post]
  have q: "runSteps e ?c (pre @ step # post) (FormatScenario sc) ?w3 = (w4, Exiting, True)" .
  have fsc: "FormatScenario (sc\<lparr>scSteps := pre\<rparr>) = FormatScenario sc"
    by (simp add: FormatScenario_def)
  have r1: "runScenario e r sc bkg w = Inr (?after w4, FormatScenario sc, True)"
    unfolding runScenario_def Let_def bgeq by (simp add: b ex st q)
  have r2: "runScenario e r (sc\<lparr>scSteps := pre\<rparr>) bkg w = Inr (?after w4, fs1, fl \<or> fl1)"
    unfolding runScenario_def Let_def bgeq fsc by (simp add: b ex p)
  have "suite (?after w4) = suite w" "failedScenarios (?after w4) = failedScenarios w"
    using s4 s3 f4 f2 f1 by (simp_all add: callHooks_suite callHooks_failedScenarios)
  with r1 r2 show ?thesis by blast
qed





subsection \<open>A small suite, its world and a few documents\<close>

text \<open>
  An environment in which the step function 13 panics and every other one returns
  without a mark, having written to the context, as every hook does.
\<close>

definition demoEnv :: "int env" where
  "demoEnv =
     \<lparr>ParseFloat = (\<lambda>s b. (0, Some ErrSyntax)),
      handlerBody = (\<lambda>i args c. \<lparr>ctxAfter = c(''last'' \<mapsto> ''step''),
                                  signal = (if i = 13 then Panicked else Returned False)\<rparr>),
      hookBody = (\<lambda>i c. c(''last'' \<mapsto> ''hook''))\<rparr>"

text \<open>
  A suite with the ignored tag \<open>@skip\<close>, one hook before and after a scenario, one hook
  before and two after a step, and the patterns \<open>I have (.*) cats\<close> and \<open>it explodes\<close>.
\<close>

definition demoSuite :: Suite where
  "demoSuite =
     AddStep ''it explodes'' (Func 13 [KStepTest, KContext])
       (AddStep ''I have (.*) cats'' intHandler
          (freshSuite\<lparr>options := NewSuiteOptions\<lparr>ignoreTags := [''@skip''],
             beforeScenario := [1], afterScenario := [2], beforeStep := [3],
             afterStep := [4, 5]\<rparr>\<rparr>))"

definition demoWorld :: "int world" where
  "demoWorld = \<lparr>suite = demoSuite, heap = [], trace = [], failedScenarios = []\<rparr>"

definition stepOf :: "string \<Rightarrow> GStep" where
  "stepOf t = \<lparr>stLine = 5, stKeyword = ''Given '', stText = t, stArgument = None\<rparr>"

definition scenarioOf :: "string \<Rightarrow> string list \<Rightarrow> GStep list \<Rightarrow> Examples list \<Rightarrow> Scenario" where
  "scenarioOf name tgs stps exs =
     \<lparr>scLine = 3, scTags = map (\<lambda>n. \<lparr>tgName = n, tgLine = 2\<rparr>) tgs, scKeyword = ''Scenario'',
      scName = name, scDescription = [], scSteps = stps, scExamples = exs, scId = name\<rparr>"

definition featureOf :: "string list \<Rightarrow> FeatureChild list \<Rightarrow> Feature" where
  "featureOf tgs children =
     \<lparr>ftLine = 1, ftTags = map (\<lambda>n. \<lparr>tgName = n, tgLine = 1\<rparr>) tgs, ftKeyword = ''Feature'',
      ftName = ''demo'', ftDescription = [], ftChildren = children\<rparr>"

definition catsScenario :: Scenario where
  "catsScenario = scenarioOf ''cats'' [] [stepOf ''I have 3 cats''] []"

definition skippedScenario :: Scenario where
  "skippedScenario = scenarioOf ''skipped'' [''@skip''] [stepOf ''I have 3 cats'', stepOf ''it explodes''] []"

definition lostScenario :: Scenario where
  "lostScenario =
     scenarioOf ''lost'' [] [stepOf ''I have 3 cats'', stepOf ''nobody knows this'', stepOf ''it explodes''] []"

definition lostOutline :: Scenario where
  "lostOutline =
     scenarioOf ''outline'' [] [stepOf ''nobody knows <a>'']
       [\<lparr>TableHeader = [''a''], TableBody = [[''1'']]\<rparr>]"


definition emptySkipped :: Scenario where
  "emptySkipped = scenarioOf ''empty'' [''@skip''] [] []"


text \<open>
  Claim C4, as stated, fails in its first part. The structure \<open>Scenario\<close> of the report
  (datatypes.go) has no status of its own: \<open>skipped\<close> is the status given to each
  recorded step. A skipped scenario without steps is therefore recorded with no status at
  all: its record is \<open>FormatScenario\<close> of it, which is also what a scenario without
  steps is recorded as when it is run (shown for the same scenario without its tag).
\<close>

theorem skipped_scenario_no_status_counterexample:
  "skipScenario demoSuite (scTags emptySkipped)
   \<and> map_sum id (\<lambda>r. (trace (fst r), rfElements (fst (snd r))))
        (runChild demoEnv (ChildScenario emptySkipped) None (FormatFeature (featureOf [] []))
           demoWorld)
     = Inr ([], [\<lparr>rcSteps = [], rcTags = [\<lparr>rtName = ''@skip'', rtLinenumber = 2\<rparr>],
                    rcId = ''empty'', rcKeyword = ''Scenario'', rcName = ''empty'',
                    rcDescription = [], rcType = ''Scenario''\<rparr>])
   \<and> FormatScenarioWithSteps emptySkipped ''skipped'' = FormatScenario emptySkipped
   \<and> map_sum id (\<lambda>r. rfElements (fst (snd r)))
        (runChild demoEnv (ChildScenario (emptySkipped\<lparr>scTags := []\<rparr>)) None
           (FormatFeature (featureOf [] [])) demoWorld)
     = Inr [FormatScenario (emptySkipped\<lparr>scTags := []\<rparr>)]"
  by code_simp

text \<open>
  Claim C4, amended. For every scenario that its tags cause to be skipped (one of its tags
  is in the ignore list, or an allow-list is configured and none of its tags is in it), the
  loop of \<open>runFeature\<close> appends one record of the scenario to the elements of the
  feature's report, and this record holds one record for every step of the scenario, in
  order, with the status \<open>skipped\<close> (the record of the scenario has no status of its
  own). Nothing is called: the calls made so far stay as they were, so no step function,
  no hook of a step and no hook of a scenario runs; the skip is decided before
  \<open>runScenario\<close>, where the scenario hooks are called. Only a fresh context has been
  made.
\<close>

theorem skipped_scenario_runs_nothing:
  assumes "(\<exists>t\<in>set (scTags sc). tgName t \<in> set (ignoreTags (options (suite w))))
     \<or> (tags (options (suite w)) \<noteq> []
         \<and> \<not> (\<exists>t\<in>set (scTags sc). tgName t \<in> set (tags (options (suite w)))))"
  shows "\<exists>w'. runChild e (ChildScenario sc) bkg ff w
            = Inr (w', ff\<lparr>rfElements := rfElements ff @ [FormatScenarioWithSteps sc ''skipped'']\<rparr>,
                   bkg)
          \<and> FormatScenarioWithSteps sc ''skipped''
              = \<lparr>rcSteps = map (\<lambda>st. \<lparr>rsStepResult = \<lparr>ErrorMsg = [], RunStatus = ''skipped'',
                                                       ExecutionTime = 0\<rparr>,
                                       rsMatch = [], rsKeyword = stKeyword st,
                                       rsName = stText st, rsLine = stLine st\<rparr>) (scSteps sc),
                 rcTags = FormatTags (scTags sc), rcId = scId sc, rcKeyword = scKeyword sc,
                 rcName = scName sc, rcDescription = scDescription sc, rcType = scKeyword sc\<rparr>
          \<and> trace w' = trace w \<and> suite w' = suite w \<and> failedScenarios w' = failedScenarios w
          \<and> heap w' = heap w @ [Map.empty]"
proof -
  from assms have sk: "skipScenario (suite w) (scTags sc)" by (simp add: skipScenario_iff)
  have r: "runChild e (ChildScenario sc) bkg ff w
      = Inr (w\<lparr>heap := snd (NewContext (heap w))\<rparr>,
             ff\<lparr>rfElements := rfElements ff @ [FormatScenarioWithSteps sc ''skipped'']\<rparr>, bkg)"
    using sk by (simp add: runChild_def Let_def AddScenario_def)
  have f: "FormatScenarioWithSteps sc ''skipped''
              = \<lparr>rcSteps = map (\<lambda>st. \<lparr>rsStepResult = \<lparr>ErrorMsg = [], RunStatus = ''skipped'',
                                                       ExecutionTime = 0\<rparr>,
                                       rsMatch = [], rsKeyword = stKeyword st,
                                       rsName = stText st, rsLine = stLine st\<rparr>) (scSteps sc),
                 rcTags = FormatTags (scTags sc), rcId = scId sc, rcKeyword = scKeyword sc,
                 rcName = scName sc, rcDescription = scDescription sc, rcType = scKeyword sc\<rparr>"
    by (simp add: FormatScenarioWithSteps_def foldl_Scenario_AddStep_eq FormatScenario_def)
  show ?thesis
    by (intro exI [of _ "w\<lparr>heap := snd (NewContext (heap w))\<rparr>"] conjI r f) (simp_all add: NewContext_def)
qed

theorem skipped_scenario_runs_nothing_witness:
  "map_sum id (\<lambda>r. (trace (fst r),
                     map (\<lambda>sc. (rcName sc, map (\<lambda>st. (rsName st, RunStatus (rsStepResult st))) (rcSteps sc)))
                         (rfElements (fst (snd r)))))
     (runChild demoEnv (ChildScenario skippedScenario) None (FormatFeature (featureOf [] [])) demoWorld)
     = Inr ([], [(''skipped'', [(''I have 3 cats'', ''skipped''), (''it explodes'', ''skipped'')])])
   \<and> beforeScenario (options (suite demoWorld)) = [1]
   \<and> afterScenario (options (suite demoWorld)) = [2]"
proof -
  have hyp: "(\<exists>t\<in>set (scTags skippedScenario). tgName t \<in> set (ignoreTags (options (suite demoWorld))))
     \<or> (tags (options (suite demoWorld)) \<noteq> []
         \<and> \<not> (\<exists>t\<in>set (scTags skippedScenario). tgName t \<in> set (tags (options (suite demoWorld)))))"
    by code_simp
  from skipped_scenario_runs_nothing [OF hyp, of demoEnv None "FormatFeature (featureOf [] [])"]
  obtain w' where
    eq: "runChild demoEnv (ChildScenario skippedScenario) None (FormatFeature (featureOf [] [])) demoWorld
       = Inr (w', (FormatFeature (featureOf [] []))
                    \<lparr>rfElements := rfElements (FormatFeature (featureOf [] []))
                        @ [FormatScenarioWithSteps skippedScenario ''skipped'']\<rparr>, None)"
    and tr: "trace w' = trace demoWorld"
    by (elim exE conjE)
  have t0: "trace demoWorld = []" by (simp add: demoWorld_def)
  have el: "rfElements (FormatFeature (featureOf [] [])) = []
      \<and> rcName (FormatScenarioWithSteps skippedScenario ''skipped'') = ''skipped''
      \<and> map (\<lambda>st. (rsName st, RunStatus (rsStepResult st)))
            (rcSteps (FormatScenarioWithSteps skippedScenario ''skipped''))
          = [(''I have 3 cats'', ''skipped''), (''it explodes'', ''skipped'')]"
    by code_simp
  have a1: "map_sum id (\<lambda>r. (trace (fst r),
                     map (\<lambda>sc. (rcName sc, map (\<lambda>st. (rsName st, RunStatus (rsStepResult st))) (rcSteps sc)))
                         (rfElements (fst (snd r)))))
     (runChild demoEnv (ChildScenario skippedScenario) None (FormatFeature (featureOf [] [])) demoWorld)
     = Inr ([], [(''skipped'', [(''I have 3 cats'', ''skipped''), (''it explodes'', ''skipped'')])])"
    unfolding eq by (simp add: tr t0 el)
  have a4: "beforeScenario (options (suite demoWorld)) = [1]" by code_simp
  have a5: "afterScenario (options (suite demoWorld)) = [2]" by code_simp
  show ?thesis by (intro conjI a1 a4 a5)
qed




text \<open>
  A step that resolves to no step definition in a scenario without examples: when the
  background steps and the steps before it all resolve, the scenario is marked failed, and
  the run leaves the same state, with the same calls of hooks and step functions, as the
  run of the scenario cut off before the unresolved step, so nothing runs for that step or
  for the steps after it; no step is recorded for the scenario. The loop over the
  children of the feature goes on with the siblings of the scenario.
\<close>

lemma unresolved_step_fails_scenario:
  assumes ex: "scExamples sc = []" and st: "scSteps sc = pre @ step # post"
    and res: "\<forall>p\<in>set (backgroundSteps bkg @ pre). \<exists>d. findStepDef (suite w) (stText p) = Inr d"
    and un: "findStepDef (suite w) (stText step) = Inl err"
  shows "(\<exists>w'. runScenario e r sc bkg w = Inr (w', FormatScenario sc, True)
            \<and> (\<exists>fs fl. runScenario e r (sc\<lparr>scSteps := pre\<rparr>) bkg w = Inr (w', fs, fl)))
       \<and> (\<not> skipScenario (suite w) (scTags sc) \<longrightarrow>
            (\<exists>w'. childrenLoop e (ChildScenario sc # siblings) bkg ff w
                    = childrenLoop e siblings bkg (AddScenario ff (FormatScenario sc)) w'
                  \<and> failedScenarios w' = failedScenarios w @ [scName sc]
                  \<and> suite w' = suite w))"
proof (intro conjI impI)
  from runScenario_unresolved [OF ex st res un, of e r]
  show "\<exists>w'. runScenario e r sc bkg w = Inr (w', FormatScenario sc, True)
            \<and> (\<exists>fs fl. runScenario e r (sc\<lparr>scSteps := pre\<rparr>) bkg w = Inr (w', fs, fl))"
    by blast
next
  assume ns: "\<not> skipScenario (suite w) (scTags sc)"
  let ?ctx = "fst (NewContext (heap w))"
  let ?w0 = "w\<lparr>heap := snd (NewContext (heap w))\<rparr>"
  from res have res0: "\<forall>p\<in>set (backgroundSteps bkg @ pre). \<exists>d. findStepDef (suite ?w0) (stText p) = Inr d"
    by simp
  from un have un0: "findStepDef (suite ?w0) (stText step) = Inl err" by simp
  from runScenario_unresolved [OF ex st res0 un0, of e ?ctx] obtain w1 where
    r1: "runScenario e ?ctx sc bkg ?w0 = Inr (w1, FormatScenario sc, True)"
    and s1: "suite w1 = suite ?w0" and f1: "failedScenarios w1 = failedScenarios ?w0"
    by blast
  let ?w' = "w1\<lparr>failedScenarios := failedScenarios w1 @ [scName sc]\<rparr>"
  have "childrenLoop e (ChildScenario sc # siblings) bkg ff w
          = childrenLoop e siblings bkg (AddScenario ff (FormatScenario sc)) ?w'"
    using ns by (simp add: runChild_def Let_def r1)
  moreover have "failedScenarios ?w' = failedScenarios w @ [scName sc]" using f1 by simp
  moreover have "suite ?w' = suite w" using s1 by simp
  ultimately show "\<exists>w'. childrenLoop e (ChildScenario sc # siblings) bkg ff w
                    = childrenLoop e siblings bkg (AddScenario ff (FormatScenario sc)) w'
                  \<and> failedScenarios w' = failedScenarios w @ [scName sc]
                  \<and> suite w' = suite w"
    by blast
qed

text \<open>
  The same for an unresolved step of the background, whatever the scenario: the scenario
  is marked failed, and after the background steps before the unresolved one only the
  after-scenario hooks run.
\<close>

lemma runScenario_unresolved_background:
  assumes bs: "backgroundSteps bkg = pre @ step # post"
    and res: "\<forall>p\<in>set pre. \<exists>d. findStepDef (suite w) (stText p) = Inr d"
    and un: "findStepDef (suite w) (stText step) = Inl err"
  shows "\<exists>w2 dropped fl.
           runSteps e r pre emptyScenario
               (callHooks BeforeScenarioHook (beforeScenario (options (suite w))) e r w)
             = (w2, Completed dropped, fl)
           \<and> runScenario e r sc bkg w
               = Inr (callHooks AfterScenarioHook (afterScenario (options (suite w))) e r w2,
                      FormatScenario sc, True)"
proof -
  let ?w1 = "callHooks BeforeScenarioHook (beforeScenario (options (suite w))) e r w"
  let ?after = "callHooks AfterScenarioHook (afterScenario (options (suite w))) e r"
  have s1: "suite ?w1 = suite w" by (simp add: callHooks_suite)
  have bgeq: "(case bkg of None \<Rightarrow> (?w1, Completed emptyScenario, False)
                | Some bg \<Rightarrow> runSteps e r (bgSteps bg) emptyScenario ?w1)
      = runSteps e r (backgroundSteps bkg) emptyScenario ?w1"
    by (simp add: backgroundSteps_def split: option.splits)
  from res s1 have "\<forall>p\<in>set pre. \<exists>d. findStepDef (suite ?w1) (stText p) = Inr d" by simp
  from runSteps_completes [OF this, of e r emptyScenario] obtain w2 dropped fl where
    b: "runSteps e r pre emptyScenario ?w1 = (w2, Completed dropped, fl)"
    and s2: "suite w2 = suite ?w1"
    by blast
  from un s2 s1 have "findStepDef (suite w2) (stText step) = Inl err" by simp
  from runSteps_stops [OF b this, of post]
  have q: "runSteps e r (backgroundSteps bkg) emptyScenario ?w1 = (w2, Exiting, True)"
    by (simp add: bs)
  have r1: "runScenario e r sc bkg w = Inr (?after w2, FormatScenario sc, True)"
    unfolding runScenario_def Let_def bgeq by (simp add: q)
  from b r1 show ?thesis by blast
qed

text \<open>
  Claim C6 against the code. For a scenario without examples, and for an unresolved
  background step, the code does what the claim says (the two lemmas above). For a
  scenario outline it does not. A row of the examples whose text resolves to no step
  definition is passed over while the outline is expanded (\<open>stepsFromExamples\<close> goes on
  with the next row), and \<open>getOutlineStep\<close> then reads \<open>stepsList[si][ci]\<close> for that
  row, an index that is not there. The panic is recovered nowhere, so the scenario is not
  reported as failed and the sibling scenario after it does not run. The same feature with
  the unresolved step in a scenario without examples marks that scenario failed, runs
  nothing after the unresolved step, and runs the sibling.
\<close>

theorem unresolved_outline_row_panics:
  "findStepDef demoSuite ''nobody knows 1'' = Inl CannotFindStepDefinition
   \<and> map_sum id (\<lambda>r. ())
        (runFeature demoEnv (featureOf [] [ChildScenario lostOutline, ChildScenario catsScenario])
           demoWorld)
       = Inl IndexOutOfRange
   \<and> findStepDef demoSuite ''nobody knows this'' = Inl CannotFindStepDefinition
   \<and> map_sum id (\<lambda>r. (failedScenarios (fst r), map rcName (rfElements (snd r)), trace (fst r)))
        (runFeature demoEnv (featureOf [] [ChildScenario lostScenario, ChildScenario catsScenario])
           demoWorld)
       = Inr ([''lost''], [''lost'', ''cats''],
              [BeforeScenarioHook 1, BeforeStepHook 3, HandlerCall 1 [VInt 3], AfterStepHook 4,
               AfterStepHook 5, AfterScenarioHook 2,
               BeforeScenarioHook 1, BeforeStepHook 3, HandlerCall 1 [VInt 3], AfterStepHook 4,
               AfterStepHook 5, AfterScenarioHook 2])"
  by code_simp

text \<open>
  Claim C7 against the code. For a feature with an ignored tag no hook and no step function
  runs, but its scenarios are not recorded as skipped: \<open>FormatFeatureWithScenario\<close> passes
  the empty string as the status of the steps, where the path of a skipped scenario in
  \<open>runFeature\<close> passes \<open>skipped\<close>. And when the feature has a background, the formatting
  reads a field of the nil scenario of that child and panics.
\<close>

theorem ignored_feature_steps_status:
  "map_sum id (\<lambda>r. (trace (fst r),
                     map (\<lambda>sc. map (\<lambda>st. (rsName st, RunStatus (rsStepResult st))) (rcSteps sc))
                         (rfElements (snd r))))
     (runFeature demoEnv (featureOf [''@skip''] [ChildScenario catsScenario]) demoWorld)
     = Inr ([], [[(''I have 3 cats'', [])]])
   \<and> map (\<lambda>st. (rsName st, RunStatus (rsStepResult st)))
          (rcSteps (FormatScenarioWithSteps catsScenario ''skipped''))
     = [(''I have 3 cats'', ''skipped'')]
   \<and> map_sum id (\<lambda>r. ())
        (runFeature demoEnv
           (featureOf [''@skip''] [ChildBackground \<lparr>bgSteps = []\<rparr>, ChildScenario catsScenario])
           demoWorld)
     = Inl NilDereference"
  by code_simp

end
